theory Spec2Isabelle
  imports Main "HOL-Library.Word" "HOL-Library.AList"
begin

section \<open>The consensus core of coinkit (network/scp.go), embedded in HOL\<close>

text \<open>
  The Go code keeps its state in structs that are mutated in place. Each method becomes a
  function from the state before the call to the state after it (and the returned value,
  when there is one). A \<^verbatim>\<open>panic\<close>, a \<^verbatim>\<open>log.Fatal\<close> and a nil dereference are
  values of \<open>error\<close>. Go's \<^verbatim>\<open>int\<close> is the 64-bit signed integer of the platform the
  node is built for: a \<open>64 word\<close>, compared with the signed order and wrapping on \<open>+\<close>.
  A Go map is an association list with distinct keys (\<open>map_of\<close> reads it,
  \<open>AList.update\<close> writes it); the order of the list stands for the order in which
  \<^verbatim>\<open>range\<close> happens to visit the map.
\<close>

type_synonym go_int = "64 word"

datatype error =
    Panic string
  | LogFatal string
  | NilDereference

subsection \<open>Slot values and quorum slices\<close>

text \<open>
  \<^verbatim>\<open>SlotValue\<close> is opaque to scp.go: it is the type variable \<open>'v\<close>. Its helpers are
  declared in a file of the package that is not part of the sources at hand.
\<close>

text \<open>Modelled from the spec: \<^verbatim>\<open>Equal\<close> on slot values, which is missing from the sources;
  the spec gives slot values a total equality, and ballots are compatible iff their values
  are equal.\<close>
definition Equal :: "'v \<Rightarrow> 'v \<Rightarrow> bool" where
  "Equal a c = (a = c)"

text \<open>Modelled from the spec: \<^verbatim>\<open>HasSlotValue\<close>, which is missing from the sources;
  the spec writes it as membership of the value in the list.\<close>
definition HasSlotValue :: "'v list \<Rightarrow> 'v \<Rightarrow> bool" where
  "HasSlotValue list v = list_ex (\<lambda>w. Equal w v) list"

text \<open>Modelled from the spec: the \<^verbatim>\<open>QuorumSlice\<close> struct, whose declaration is missing
  from the sources: \<open>{Members: list<string>, Threshold: int}\<close>.\<close>
record QuorumSlice =
  Members :: "string list"
  Threshold :: go_int

text \<open>Modelled from the spec: \<^verbatim>\<open>SatisfiedBy\<close>, which is missing from the sources:
  \<open>|S \<inter> members| \<ge> threshold\<close>, the members being a list without duplicates.\<close>
definition SatisfiedBy :: "QuorumSlice \<Rightarrow> string list \<Rightarrow> bool" where
  "SatisfiedBy qs nodes =
     (sint (Threshold qs) \<le> int (length (filter (\<lambda>member. member \<in> set nodes) (Members qs))))"

text \<open>Modelled from the spec: \<^verbatim>\<open>BlockedBy\<close>, which is missing from the sources:
  \<open>|members| - |members \<inter> S| < threshold\<close>.\<close>
definition BlockedBy :: "QuorumSlice \<Rightarrow> string list \<Rightarrow> bool" where
  "BlockedBy qs nodes =
     (int (length (Members qs))
        - int (length (filter (\<lambda>member. member \<in> set nodes) (Members qs)))
      < sint (Threshold qs))"

text \<open>Modelled from the spec: the body of \<^verbatim>\<open>MeetsQuorum\<close>, which is missing from the
  sources. Step 2 of the spec's algorithm: repeatedly remove every node whose slice is not
  satisfied by the remaining set, until nothing is removed.\<close>
function quorum_closure :: "(string \<Rightarrow> QuorumSlice option) \<Rightarrow> string list \<Rightarrow> string list" where
  "quorum_closure lookup Q =
     (let Q' = filter (\<lambda>u. case lookup u of None \<Rightarrow> False | Some qs \<Rightarrow> SatisfiedBy qs Q) Q
      in if length Q' < length Q then quorum_closure lookup Q' else Q)"
  by pat_completeness auto
termination
  by (relation "measure (\<lambda>(lookup, Q). length Q)") auto

declare quorum_closure.simps [simp del]

text \<open>Modelled from the spec: \<^verbatim>\<open>MeetsQuorum(f, nodes)\<close>, which is missing from the sources.
  The Go function takes a \<^verbatim>\<open>QuorumFinder\<close>, here its two methods: the slice lookup and
  the own public key. Step 1: \<open>Q \<leftarrow> S \<union> {v}\<close> restricted to the nodes whose slice is known;
  step 3: return \<open>v \<in> Q\<close>.\<close>
definition MeetsQuorum :: "(string \<Rightarrow> QuorumSlice option) \<Rightarrow> string \<Rightarrow> string list \<Rightarrow> bool" where
  "MeetsQuorum lookup v nodes =
     (v \<in> set (quorum_closure lookup (filter (\<lambda>u. lookup u \<noteq> None) (v # nodes))))"

subsection \<open>Nomination\<close>

record 'v NominationMessage =
  nm_I :: go_int
  nm_X :: "'v list"
  nm_Y :: "'v list"
  nm_D :: QuorumSlice

record 'v NominationState =
  ns_X :: "'v list"
  ns_Y :: "'v list"
  ns_Z :: "'v list"
  ns_N :: "(string \<times> 'v NominationMessage) list"
  ns_publicKey :: string
  ns_D :: QuorumSlice

definition NewNominationState :: "string \<Rightarrow> QuorumSlice \<Rightarrow> 'v NominationState" where
  "NewNominationState publicKey qs =
     \<lparr>ns_X = [], ns_Y = [], ns_Z = [], ns_N = [], ns_publicKey = publicKey, ns_D = qs\<rparr>"

definition HasNomination :: "'v NominationState \<Rightarrow> bool" where
  "HasNomination s = (length (ns_X s) > 0)"

definition SetDefault :: "'v \<Rightarrow> 'v NominationState \<Rightarrow> 'v NominationState" where
  "SetDefault v s = (if HasNomination s then s else s\<lparr>ns_X := [v]\<rparr>)"

text \<open>\<^verbatim>\<open>CombineSlice\<close> is missing from the sources and the spec leaves it abstract: it is
  the parameter \<open>CombineSlice\<close>.\<close>
definition PredictValue :: "('v list \<Rightarrow> 'v) \<Rightarrow> 'v NominationState \<Rightarrow> error + 'v" where
  "PredictValue CombineSlice s =
     (if length (ns_Z s) > 0 then Inr (CombineSlice (ns_Z s))
      else if length (ns_Y s) > 0 then Inr (CombineSlice (ns_Y s))
      else if length (ns_X s) > 0 then Inr (CombineSlice (ns_X s))
      else Inl (Panic ''PredictValue was called when HasNomination was false''))"

definition NominationState_QuorumSlice :: "'v NominationState \<Rightarrow> string \<Rightarrow> QuorumSlice option" where
  "NominationState_QuorumSlice s node =
     (if node = ns_publicKey s then Some (ns_D s)
      else case map_of (ns_N s) node of
             None \<Rightarrow> None
           | Some m \<Rightarrow> Some (nm_D m))"

text \<open>The loop of \<^verbatim>\<open>MaybeAdvance\<close> over the stored messages; the accumulator is the pair
  \<open>(votedOrAccepted, accepted)\<close>.\<close>
fun nomination_tally ::
  "'v \<Rightarrow> (string \<times> 'v NominationMessage) list \<Rightarrow> string list \<times> string list
     \<Rightarrow> string list \<times> string list" where
  "nomination_tally v [] acc = acc"
| "nomination_tally v ((node, m) # rest) (votedOrAccepted, accepted) =
     (if HasSlotValue (nm_Y m) v
        then nomination_tally v rest (votedOrAccepted @ [node], accepted @ [node])
      else if HasSlotValue (nm_X m) v
        then nomination_tally v rest (votedOrAccepted @ [node], accepted)
      else nomination_tally v rest (votedOrAccepted, accepted))"

definition MaybeAdvance :: "'v \<Rightarrow> 'v NominationState \<Rightarrow> bool \<times> 'v NominationState" where
  "MaybeAdvance v s =
     (if HasSlotValue (ns_Z s) v then (False, s)
      else
        let votedOrAccepted0 = (if HasSlotValue (ns_X s) v then [ns_publicKey s] else []);
            accepted0 = (if HasSlotValue (ns_Y s) v then [ns_publicKey s] else []);
            (votedOrAccepted, accepted) =
               nomination_tally v (ns_N s) (votedOrAccepted0, accepted0);
            accept = (MeetsQuorum (NominationState_QuorumSlice s) (ns_publicKey s) votedOrAccepted
                      \<or> BlockedBy (ns_D s) accepted);
            (changed1, s1) =
               (if accept \<and> \<not> HasSlotValue (ns_Y s) v
                then (True, s\<lparr>ns_Y := ns_Y s @ [v]\<rparr>) else (False, s))
        in if MeetsQuorum (NominationState_QuorumSlice s1) (ns_publicKey s1) accepted
           then (True, s1\<lparr>ns_Z := ns_Z s1 @ [v]\<rparr>)
           else (changed1, s1))"

text \<open>The first loop of \<^verbatim>\<open>Handle\<close>, over \<^verbatim>\<open>m.X[oldLenX:]\<close>; the accumulator is
  \<open>(touched, s)\<close>.\<close>
fun support_new ::
  "'v list \<Rightarrow> 'v list \<times> 'v NominationState \<Rightarrow> 'v list \<times> 'v NominationState" where
  "support_new [] acc = acc"
| "support_new (w # rest) (touched, s) =
     (let touched1 = (if \<not> HasSlotValue touched w then touched @ [w] else touched);
          s1 = (if \<not> HasSlotValue (ns_X s) w then s\<lparr>ns_X := ns_X s @ [w]\<rparr> else s)
      in support_new rest (touched1, s1))"

text \<open>The second loop, over \<^verbatim>\<open>m.Y[oldLenY:]\<close>.\<close>
fun touch_new :: "'v list \<Rightarrow> 'v list \<Rightarrow> 'v list" where
  "touch_new [] touched = touched"
| "touch_new (w # rest) touched =
     touch_new rest (if \<not> HasSlotValue touched w then touched @ [w] else touched)"

text \<open>The third loop: \<^verbatim>\<open>MaybeAdvance\<close> on every touched value, its result dropped.\<close>
fun advance_all :: "'v list \<Rightarrow> 'v NominationState \<Rightarrow> 'v NominationState" where
  "advance_all [] s = s"
| "advance_all (v # rest) s = advance_all rest (snd (MaybeAdvance v s))"

definition NominationState_Handle ::
  "string \<Rightarrow> 'v NominationMessage \<Rightarrow> 'v NominationState \<Rightarrow> 'v NominationState" where
  "NominationState_Handle node m s =
     (let (oldLenX, oldLenY) =
            (case map_of (ns_N s) node of
               None \<Rightarrow> (0, 0)
             | Some old \<Rightarrow> (length (nm_X old), length (nm_Y old)))
      in if length (nm_X m) < oldLenX then s
         else if length (nm_Y m) < oldLenY then s
         else if length (nm_X m) = oldLenX \<and> length (nm_Y m) = oldLenY then s
         else
           let s1 = s\<lparr>ns_N := AList.update node m (ns_N s)\<rparr>;
               (touched1, s2) = support_new (drop oldLenX (nm_X m)) ([], s1);
               touched2 = touch_new (drop oldLenY (nm_Y m)) touched1
           in advance_all touched2 s2)"

subsection \<open>Ballots and ballot messages\<close>

text \<open>Modelled from the spec: the \<^verbatim>\<open>Phase\<close> constants, whose declaration is missing from
  the sources: \<open>phase \<in> {Prepare, Confirm, Externalize}\<close>, advancing in this order.\<close>
datatype Phase = Prepare | Confirm | Externalize

fun phase_rank :: "Phase \<Rightarrow> nat" where
  "phase_rank Prepare = 0"
| "phase_rank Confirm = 1"
| "phase_rank Externalize = 2"

text \<open>The \<^verbatim>\<open>Ballot\<close> struct, with the two fields scp.go reads and writes.\<close>
record 'v Ballot =
  ballot_n :: go_int
  ballot_x :: 'v

text \<open>The three message structs, with the fields \<^verbatim>\<open>BallotState.Message\<close> fills in.\<close>
record 'v PrepareMessage =
  pm_T :: Phase
  pm_I :: go_int
  pm_Bn :: go_int
  pm_Bx :: 'v
  pm_Pn :: go_int
  pm_Px :: 'v
  pm_Ppn :: go_int
  pm_Ppx :: 'v
  pm_Cn :: go_int
  pm_Hn :: go_int
  pm_D :: QuorumSlice

record 'v ConfirmMessage =
  cm_T :: Phase
  cm_I :: go_int
  cm_X :: 'v
  cm_Pn :: go_int
  cm_Cn :: go_int
  cm_Hn :: go_int
  cm_D :: QuorumSlice

record 'v ExternalizeMessage =
  em_T :: Phase
  em_I :: go_int
  em_X :: 'v
  em_Cn :: go_int
  em_Hn :: go_int
  em_D :: QuorumSlice

text \<open>A value of the interface \<^verbatim>\<open>BallotMessage\<close> is a pointer to one of the three.\<close>
datatype 'v BallotMessage =
    Prepare_Message "'v PrepareMessage"
  | Confirm_Message "'v ConfirmMessage"
  | Externalize_Message "'v ExternalizeMessage"

text \<open>
  The methods of the interface \<^verbatim>\<open>BallotMessage\<close> that scp.go calls, and the function
  \<^verbatim>\<open>Compare\<close>. Their bodies are in a file that is not part of the sources and the spec
  does not define them, so every function of the ballot state takes them as the
  parameter \<open>ops\<close>: what is proved holds for every implementation of the interface.
\<close>
record 'v BallotMessage_methods =
  AcceptAsPrepared :: "'v BallotMessage \<Rightarrow> go_int \<Rightarrow> 'v \<Rightarrow> bool"
  VoteToPrepare :: "'v BallotMessage \<Rightarrow> go_int \<Rightarrow> 'v \<Rightarrow> bool"
  AcceptAsCommitted :: "'v BallotMessage \<Rightarrow> go_int \<Rightarrow> 'v \<Rightarrow> bool"
  VoteToCommit :: "'v BallotMessage \<Rightarrow> go_int \<Rightarrow> 'v \<Rightarrow> bool"
  BallotNumber :: "'v BallotMessage \<Rightarrow> go_int"
  Message_QuorumSlice :: "'v BallotMessage \<Rightarrow> QuorumSlice"
  Compare :: "'v BallotMessage \<Rightarrow> 'v BallotMessage \<Rightarrow> go_int"

text \<open>Modelled from the spec: \<^verbatim>\<open>gtecompat\<close>, which is missing from the sources: the
  ballot \<open>(n, x)\<close> is covered by a recorded ballot with the same \<open>x\<close> and \<open>n \<le> existing.n\<close>;
  a nil ballot covers nothing.\<close>
definition gtecompat :: "'v Ballot option \<Rightarrow> 'v Ballot \<Rightarrow> bool" where
  "gtecompat a c =
     (case a of
        None \<Rightarrow> False
      | Some a' \<Rightarrow> ballot_n c \<le>s ballot_n a' \<and> Equal (ballot_x a') (ballot_x c))"

subsection \<open>The ballot state\<close>

record 'v BallotState =
  bs_phase :: Phase
  bs_b :: "'v Ballot option"
  bs_p :: "'v Ballot option"
  bs_pPrime :: "'v Ballot option"
  bs_cn :: go_int
  bs_hn :: go_int
  bs_z :: "'v option"
  bs_M :: "(string \<times> 'v BallotMessage) list"
  bs_publicKey :: string
  bs_D :: QuorumSlice

definition NewBallotState :: "string \<Rightarrow> QuorumSlice \<Rightarrow> 'v BallotState" where
  "NewBallotState publicKey qs =
     \<lparr>bs_phase = Prepare, bs_b = None, bs_p = None, bs_pPrime = None, bs_cn = 0, bs_hn = 0,
      bs_z = None, bs_M = [], bs_publicKey = publicKey, bs_D = qs\<rparr>"

definition BallotState_QuorumSlice ::
  "'v BallotMessage_methods \<Rightarrow> 'v BallotState \<Rightarrow> string \<Rightarrow> QuorumSlice option" where
  "BallotState_QuorumSlice ops s node =
     (if node = bs_publicKey s then Some (bs_D s)
      else case map_of (bs_M s) node of
             None \<Rightarrow> None
           | Some m \<Rightarrow> Some (Message_QuorumSlice ops m))"

text \<open>The loop of \<^verbatim>\<open>MaybeAcceptAsPrepared\<close> over the stored messages; the accumulator is
  \<open>(votedOrAccepted, accepted)\<close>.\<close>
fun prepare_tally ::
  "'v BallotMessage_methods \<Rightarrow> go_int \<Rightarrow> 'v \<Rightarrow> (string \<times> 'v BallotMessage) list
     \<Rightarrow> string list \<times> string list \<Rightarrow> string list \<times> string list" where
  "prepare_tally ops n x [] acc = acc"
| "prepare_tally ops n x ((node, m) # rest) (votedOrAccepted, accepted) =
     (if AcceptAsPrepared ops m n x
        then prepare_tally ops n x rest (votedOrAccepted @ [node], accepted @ [node])
      else if VoteToPrepare ops m n x
        then prepare_tally ops n x rest (votedOrAccepted @ [node], accepted)
      else prepare_tally ops n x rest (votedOrAccepted, accepted))"

definition MaybeAcceptAsPrepared ::
  "'v BallotMessage_methods \<Rightarrow> go_int \<Rightarrow> 'v \<Rightarrow> 'v BallotState \<Rightarrow> error + 'v BallotState" where
  "MaybeAcceptAsPrepared ops n x s =
     (if bs_phase s \<noteq> Prepare then Inr s
      else if n = 0 then Inr s
      else if (case bs_p s of None \<Rightarrow> False
               | Some p \<Rightarrow> n \<le>s ballot_n p \<and> Equal (ballot_x p) x) then Inr s
      else if (case bs_pPrime s of None \<Rightarrow> False
               | Some pp \<Rightarrow> n \<le>s ballot_n pp \<and> Equal (ballot_x pp) x) then Inr s
      else if (case bs_pPrime s of None \<Rightarrow> False | Some pp \<Rightarrow> n \<le>s ballot_n pp) then Inr s
      else
        let votedOrAccepted0 =
              (if (case bs_b s of None \<Rightarrow> False
                   | Some b \<Rightarrow> n \<le>s ballot_n b \<and> Equal (ballot_x b) x)
               then [bs_publicKey s] else []);
            (votedOrAccepted, accepted) = prepare_tally ops n x (bs_M s) (votedOrAccepted0, [])
        in if \<not> MeetsQuorum (BallotState_QuorumSlice ops s) (bs_publicKey s) votedOrAccepted
              \<and> \<not> BlockedBy (bs_D s) accepted
           then Inr s
           else
             let s1 = (if (case bs_b s of None \<Rightarrow> False
                           | Some b \<Rightarrow> bs_hn s \<le>s n \<and> \<not> Equal (ballot_x b) x)
                       then s\<lparr>bs_hn := 0, bs_cn := 0, bs_b := None\<rparr> else s);
                 ballot = \<lparr>ballot_n = n, ballot_x = x\<rparr>
             in case bs_p s1 of
                  None \<Rightarrow> Inr (s1\<lparr>bs_p := Some ballot\<rparr>)
                | Some p \<Rightarrow>
                    if Equal (ballot_x p) x then
                      (if n \<le>s ballot_n p
                       then Inl (LogFatal ''should have short circuited already'')
                       else Inr (s1\<lparr>bs_p := Some (p\<lparr>ballot_n := n\<rparr>)\<rparr>))
                    else if ballot_n p \<le>s n
                      then Inr (s1\<lparr>bs_pPrime := Some p, bs_p := Some ballot\<rparr>)
                    else Inr (s1\<lparr>bs_pPrime := Some ballot\<rparr>))"

definition MaybeConfirmAsPrepared ::
  "'v BallotMessage_methods \<Rightarrow> go_int \<Rightarrow> 'v \<Rightarrow> 'v BallotState \<Rightarrow> 'v BallotState" where
  "MaybeConfirmAsPrepared ops n x s =
     (if bs_phase s \<noteq> Prepare then s
      else if n \<le>s bs_hn s then s
      else
        let ballot = \<lparr>ballot_n = n, ballot_x = x\<rparr>;
            accepted0 = (if gtecompat (bs_p s) ballot \<or> gtecompat (bs_pPrime s) ballot
                         then [bs_publicKey s] else []);
            accepted = accepted0 @ map fst (filter (\<lambda>(node, m). AcceptAsPrepared ops m n x) (bs_M s))
        in if \<not> MeetsQuorum (BallotState_QuorumSlice ops s) (bs_publicKey s) accepted then s
           else
             let s1 = (if (case bs_b s of None \<Rightarrow> False | Some b \<Rightarrow> \<not> Equal (ballot_x b) x)
                       then s\<lparr>bs_b := None, bs_hn := 0, bs_cn := 0\<rparr> else s)
             in if bs_b s1 = None
                then s1\<lparr>bs_b := Some ballot, bs_hn := n, bs_cn := n, bs_z := Some x\<rparr>
                else s1\<lparr>bs_hn := n\<rparr>)"

text \<open>The loop of \<^verbatim>\<open>MaybeAcceptAsCommitted\<close> over the stored messages.\<close>
fun commit_tally ::
  "'v BallotMessage_methods \<Rightarrow> go_int \<Rightarrow> 'v \<Rightarrow> (string \<times> 'v BallotMessage) list
     \<Rightarrow> string list \<times> string list \<Rightarrow> string list \<times> string list" where
  "commit_tally ops n x [] acc = acc"
| "commit_tally ops n x ((node, m) # rest) (votedOrAccepted, accepted) =
     (if AcceptAsCommitted ops m n x
        then commit_tally ops n x rest (votedOrAccepted @ [node], accepted @ [node])
      else if VoteToCommit ops m n x
        then commit_tally ops n x rest (votedOrAccepted @ [node], accepted)
      else commit_tally ops n x rest (votedOrAccepted, accepted))"

definition MaybeAcceptAsCommitted ::
  "'v BallotMessage_methods \<Rightarrow> go_int \<Rightarrow> 'v \<Rightarrow> 'v BallotState \<Rightarrow> 'v BallotState" where
  "MaybeAcceptAsCommitted ops n x s =
     (if bs_phase s = Externalize then s
      else if bs_phase s = Confirm \<and> bs_cn s \<le>s n \<and> n \<le>s bs_hn s then s
      else
        let votedOrAccepted0 =
              (if bs_phase s = Prepare
                  \<and> (case bs_b s of None \<Rightarrow> False
                      | Some b \<Rightarrow> Equal (ballot_x b) x \<and> bs_cn s \<noteq> 0
                                  \<and> bs_cn s \<le>s n \<and> n \<le>s bs_hn s)
               then [bs_publicKey s] else []);
            (votedOrAccepted, accepted) = commit_tally ops n x (bs_M s) (votedOrAccepted0, [])
        in if \<not> MeetsQuorum (BallotState_QuorumSlice ops s) (bs_publicKey s) votedOrAccepted
              \<and> \<not> BlockedBy (bs_D s) accepted
           then s
           else
             let s1 = s\<lparr>bs_phase := Confirm\<rparr>
             in if (case bs_b s1 of None \<Rightarrow> True | Some b \<Rightarrow> \<not> Equal (ballot_x b) x)
                then s1\<lparr>bs_b := Some \<lparr>ballot_n = n, ballot_x = x\<rparr>,
                        bs_cn := n, bs_hn := n, bs_z := Some x\<rparr>
                else
                  let s2 = (if n <s bs_cn s1 then s1\<lparr>bs_cn := n\<rparr> else s1)
                  in (if bs_hn s2 <s n then s2\<lparr>bs_hn := n\<rparr> else s2))"

definition MaybeConfirmAsCommitted ::
  "'v BallotMessage_methods \<Rightarrow> go_int \<Rightarrow> 'v \<Rightarrow> 'v BallotState \<Rightarrow> 'v BallotState" where
  "MaybeConfirmAsCommitted ops n x s =
     (if bs_phase s = Prepare then s
      else if (case bs_b s of None \<Rightarrow> True | Some b \<Rightarrow> \<not> Equal (ballot_x b) x) then s
      else if bs_phase s \<noteq> Confirm \<and> bs_cn s \<le>s n \<and> n \<le>s bs_hn s then s
      else
        let accepted0 = (if bs_phase s = Confirm \<and> bs_cn s \<le>s n \<and> n \<le>s bs_hn s
                         then [bs_publicKey s] else []);
            accepted = accepted0 @ map fst (filter (\<lambda>(node, m). AcceptAsCommitted ops m n x) (bs_M s))
        in if \<not> MeetsQuorum (BallotState_QuorumSlice ops s) (bs_publicKey s) accepted then s
           else if bs_phase s = Confirm
             then s\<lparr>bs_phase := Externalize, bs_cn := n, bs_hn := n\<rparr>
           else
             let s1 = (if n <s bs_cn s then s\<lparr>bs_cn := n\<rparr> else s)
             in (if bs_hn s1 <s n then s1\<lparr>bs_hn := n\<rparr> else s1))"

definition MaybeNextBallot ::
  "'v BallotMessage_methods \<Rightarrow> 'v BallotState \<Rightarrow> bool \<times> 'v BallotState" where
  "MaybeNextBallot ops s =
     (case (bs_z s, bs_b s) of
        (Some z, Some b) \<Rightarrow>
          let current = ballot_n b;
              higher = map fst (filter (\<lambda>(node, m). current <s BallotNumber ops m) (bs_M s))
          in if \<not> BlockedBy (bs_D s) higher then (False, s)
             else (True, s\<lparr>bs_b := Some (b\<lparr>ballot_n := ballot_n b + 1\<rparr>)\<rparr>)
      | _ \<Rightarrow> (False, s))"

definition Investigate ::
  "'v BallotMessage_methods \<Rightarrow> go_int \<Rightarrow> 'v \<Rightarrow> 'v BallotState \<Rightarrow> error + 'v BallotState" where
  "Investigate ops n x s =
     (case MaybeAcceptAsPrepared ops n x s of
        Inl e \<Rightarrow> Inl e
      | Inr s1 \<Rightarrow>
          Inr (MaybeConfirmAsCommitted ops n x
                (MaybeAcceptAsCommitted ops n x
                  (MaybeConfirmAsPrepared ops n x s1))))"

text \<open>
  The loops of \<^verbatim>\<open>Handle\<close> need not end: the counter of
  \<^verbatim>\<open>for i := m.Cn; i <= m.Hn; i++\<close> wraps around when \<^verbatim>\<open>m.Hn\<close> is the largest
  \<^verbatim>\<open>int\<close>, and the outer \<^verbatim>\<open>for\<close> runs for as long as \<^verbatim>\<open>MaybeNextBallot\<close> returns
  true. Both take fuel, the number of iterations they may run: the result is \<open>None\<close> when
  the fuel does not suffice, \<open>Some (Inl e)\<close> when the process stops with the error \<open>e\<close>,
  and \<open>Some (Inr s)\<close> when the call returns in state \<open>s\<close>.
\<close>
fun investigate_range ::
  "'v BallotMessage_methods \<Rightarrow> nat \<Rightarrow> go_int \<Rightarrow> go_int \<Rightarrow> 'v \<Rightarrow> 'v BallotState
     \<Rightarrow> (error + 'v BallotState) option" where
  "investigate_range ops 0 i hn x s = (if i \<le>s hn then None else Some (Inr s))"
| "investigate_range ops (Suc fuel) i hn x s =
     (if i \<le>s hn then
        (case Investigate ops i x s of
           Inl e \<Rightarrow> Some (Inl e)
         | Inr s1 \<Rightarrow> investigate_range ops fuel (i + 1) hn x s1)
      else Some (Inr s))"

text \<open>The type switch in the body of the outer loop.\<close>
fun investigate_message ::
  "'v BallotMessage_methods \<Rightarrow> nat \<Rightarrow> 'v BallotMessage \<Rightarrow> 'v BallotState
     \<Rightarrow> (error + 'v BallotState) option" where
  "investigate_message ops fuel (Prepare_Message m) s =
     (case Investigate ops (pm_Bn m) (pm_Bx m) s of
        Inl e \<Rightarrow> Some (Inl e)
      | Inr s1 \<Rightarrow>
          (case Investigate ops (pm_Pn m) (pm_Px m) s1 of
             Inl e \<Rightarrow> Some (Inl e)
           | Inr s2 \<Rightarrow> Some (Investigate ops (pm_Ppn m) (pm_Ppx m) s2)))"
| "investigate_message ops fuel (Confirm_Message m) s =
     Some (Investigate ops (cm_Hn m) (cm_X m) s)"
| "investigate_message ops fuel (Externalize_Message m) s =
     investigate_range ops fuel (em_Cn m) (em_Hn m) (em_X m) s"

fun handle_loop ::
  "'v BallotMessage_methods \<Rightarrow> nat \<Rightarrow> 'v BallotMessage \<Rightarrow> 'v BallotState
     \<Rightarrow> (error + 'v BallotState) option" where
  "handle_loop ops 0 message s = None"
| "handle_loop ops (Suc fuel) message s =
     (case investigate_message ops (Suc fuel) message s of
        None \<Rightarrow> None
      | Some (Inl e) \<Rightarrow> Some (Inl e)
      | Some (Inr s1) \<Rightarrow>
          (case MaybeNextBallot ops s1 of
             (True, s2) \<Rightarrow> handle_loop ops fuel message s2
           | (False, s2) \<Rightarrow> Some (Inr s2)))"

definition BallotState_Handle ::
  "'v BallotMessage_methods \<Rightarrow> nat \<Rightarrow> string \<Rightarrow> 'v BallotMessage \<Rightarrow> 'v BallotState
     \<Rightarrow> (error + 'v BallotState) option" where
  "BallotState_Handle ops fuel node message s =
     (case map_of (bs_M s) node of
        Some old \<Rightarrow>
          if 0 \<le>s Compare ops old message then Some (Inr s)
          else handle_loop ops fuel message (s\<lparr>bs_M := AList.update node message (bs_M s)\<rparr>)
      | None \<Rightarrow> handle_loop ops fuel message (s\<lparr>bs_M := AList.update node message (bs_M s)\<rparr>))"

definition HasMessage :: "'v BallotState \<Rightarrow> bool" where
  "HasMessage s = (bs_b s \<noteq> None)"

text \<open>\<^verbatim>\<open>Message\<close> builds the outgoing message. The fields it does not set keep Go's zero
  value: \<open>0\<close> for a number, and for a slot value the parameter \<open>zeroValue\<close>.\<close>
definition BallotState_Message ::
  "'v \<Rightarrow> go_int \<Rightarrow> QuorumSlice \<Rightarrow> 'v BallotState \<Rightarrow> error + 'v BallotMessage" where
  "BallotState_Message zeroValue slot qs s =
     (if \<not> HasMessage s then Inl (Panic ''coding error'')
      else case bs_b s of
        None \<Rightarrow> Inl NilDereference
      | Some b \<Rightarrow>
         (case bs_phase s of
            Prepare \<Rightarrow>
              let m = \<lparr>pm_T = Prepare, pm_I = slot, pm_Bn = ballot_n b, pm_Bx = ballot_x b,
                       pm_Pn = 0, pm_Px = zeroValue, pm_Ppn = 0, pm_Ppx = zeroValue,
                       pm_Cn = bs_cn s, pm_Hn = bs_hn s, pm_D = qs\<rparr>;
                  m1 = (case bs_p s of None \<Rightarrow> m
                        | Some p \<Rightarrow> m\<lparr>pm_Pn := ballot_n p, pm_Px := ballot_x p\<rparr>);
                  m2 = (case bs_pPrime s of None \<Rightarrow> m1
                        | Some pp \<Rightarrow> m1\<lparr>pm_Ppn := ballot_n pp, pm_Ppx := ballot_x pp\<rparr>)
              in Inr (Prepare_Message m2)
          | Confirm \<Rightarrow>
              let m = \<lparr>cm_T = Confirm, cm_I = slot, cm_X = ballot_x b, cm_Pn = 0,
                       cm_Cn = bs_cn s, cm_Hn = bs_hn s, cm_D = qs\<rparr>;
                  m1 = (case bs_p s of None \<Rightarrow> m | Some p \<Rightarrow> m\<lparr>cm_Pn := ballot_n p\<rparr>)
              in Inr (Confirm_Message m1)
          | Externalize \<Rightarrow>
              Inr (Externalize_Message
                    \<lparr>em_T = Externalize, em_I = slot, em_X = ballot_x b,
                     em_Cn = bs_cn s, em_Hn = bs_hn s, em_D = qs\<rparr>)))"

subsection \<open>The state builder\<close>

datatype 'v Message =
    Nomination_Message "'v NominationMessage"
  | Ballot_Message "'v BallotMessage"

text \<open>\<^verbatim>\<open>nState\<close> and \<^verbatim>\<open>bState\<close> are pointers: \<open>None\<close> is nil. A reading of the clock
  (\<^verbatim>\<open>time.Time\<close>) is a natural number.\<close>
record 'v StateBuilder =
  sb_slot :: go_int
  sb_start :: nat
  sb_values :: "(go_int \<times> 'v) list"
  sb_nState :: "'v NominationState option"
  sb_bState :: "'v BallotState option"
  sb_D :: QuorumSlice
  sb_publicKey :: string

text \<open>\<^verbatim>\<open>NewStateBuilder\<close>; \<open>now\<close> is what \<^verbatim>\<open>time.Now()\<close> returns. The composite literal
  does not mention \<^verbatim>\<open>bState\<close>, which is therefore nil.\<close>
definition NewStateBuilder :: "string \<Rightarrow> string list \<Rightarrow> go_int \<Rightarrow> nat \<Rightarrow> 'v StateBuilder" where
  "NewStateBuilder publicKey members threshold now =
     (let qs = \<lparr>Members = members, Threshold = threshold\<rparr>
      in \<lparr>sb_slot = 1, sb_start = now, sb_values = [],
          sb_nState = Some (NewNominationState publicKey qs), sb_bState = None,
          sb_D = qs, sb_publicKey = publicKey\<rparr>)"

text \<open>\<^verbatim>\<open>OutgoingMessages\<close>. \<^verbatim>\<open>MakeSlotValue\<close> is missing from the sources: it is a
  parameter; \<open>stamp\<close> is the formatted time \<^verbatim>\<open>time.Now().Format("15:04:05.00000")\<close>. The
  methods \<^verbatim>\<open>HasNomination\<close> and \<^verbatim>\<open>HasMessage\<close> read a field of their receiver, which
  is a nil dereference when the receiver is nil.\<close>
definition OutgoingMessages ::
  "(string \<Rightarrow> 'v) \<Rightarrow> 'v \<Rightarrow> string \<Rightarrow> 'v StateBuilder \<Rightarrow> error + ('v Message list \<times> 'v StateBuilder)" where
  "OutgoingMessages MakeSlotValue zeroValue stamp sb =
     (case sb_nState sb of
        None \<Rightarrow> Inl NilDereference
      | Some ns \<Rightarrow>
          let ns1 = (if \<not> HasNomination ns
                     then SetDefault
                            (MakeSlotValue (''this is '' @ sb_publicKey sb @ '' at '' @ stamp)) ns
                     else ns);
              sb1 = sb\<lparr>sb_nState := Some ns1\<rparr>;
              answer = [Nomination_Message
                          \<lparr>nm_I = sb_slot sb1, nm_X = ns_X ns1, nm_Y = ns_Y ns1, nm_D = sb_D sb1\<rparr>]
          in (case sb_bState sb1 of
                None \<Rightarrow> Inl NilDereference
              | Some bs \<Rightarrow>
                  if HasMessage bs then
                    (case BallotState_Message zeroValue (sb_slot sb1) (sb_D sb1) bs of
                       Inl e \<Rightarrow> Inl e
                     | Inr m \<Rightarrow> Inr (answer @ [Ballot_Message m], sb1))
                  else Inr (answer, sb1)))"

text \<open>\<^verbatim>\<open>StateBuilder.Handle\<close> dispatches on the type of the message; the three ballot
  message types take the same path. It does not allocate \<^verbatim>\<open>bState\<close> either.\<close>
definition StateBuilder_Handle ::
  "'v BallotMessage_methods \<Rightarrow> nat \<Rightarrow> string \<Rightarrow> 'v Message \<Rightarrow> 'v StateBuilder
     \<Rightarrow> (error + 'v StateBuilder) option" where
  "StateBuilder_Handle ops fuel sender message sb =
     (case message of
        Nomination_Message m \<Rightarrow>
          (case sb_nState sb of
             None \<Rightarrow> Some (Inl NilDereference)
           | Some ns \<Rightarrow> Some (Inr (sb\<lparr>sb_nState := Some (NominationState_Handle sender m ns)\<rparr>)))
      | Ballot_Message m \<Rightarrow>
          (case sb_bState sb of
             None \<Rightarrow> Some (Inl NilDereference)
           | Some bs \<Rightarrow>
               (case BallotState_Handle ops fuel sender m bs of
                  None \<Rightarrow> None
                | Some (Inl e) \<Rightarrow> Some (Inl e)
                | Some (Inr bs1) \<Rightarrow> Some (Inr (sb\<lparr>sb_bState := Some bs1\<rparr>)))))"

section \<open>The encoding of operations (util/operation.go)\<close>

text \<open>
  An \<^verbatim>\<open>Operation\<close> is an interface value: nil, or a pointer, itself nil or pointing to a
  struct of type \<open>'op\<close>.
\<close>
datatype 'op Operation =
    Nil_interface
  | Nil_pointer
  | Pointer_to 'op

record 'op DecodedOperation =
  do_T :: string
  do_O :: "'op Operation"

text \<open>\<open>'raw\<close> is \<^verbatim>\<open>json.RawMessage\<close>.\<close>
record 'raw PartiallyDecodedOperation =
  pdo_T :: string
  pdo_O :: 'raw

text \<open>
  What operation.go takes from outside: the method \<^verbatim>\<open>OperationType\<close> of the operation,
  its \<^verbatim>\<open>reflect.Type\<close> (\<open>'ty\<close>), and the three uses of the package encoding/json, on
  JSON texts \<open>'json\<close>: \<^verbatim>\<open>Marshal\<close> of a \<^verbatim>\<open>DecodedOperation\<close>, \<^verbatim>\<open>Unmarshal\<close> into a
  \<^verbatim>\<open>PartiallyDecodedOperation\<close>, and \<^verbatim>\<open>Unmarshal\<close> of the payload into a new value of
  a registered type, which gives the interface value left in \<^verbatim>\<open>op\<close>. A Go \<^verbatim>\<open>error\<close>
  is its message. The functions of operation.go take them as the parameter \<open>env\<close>.
\<close>
record ('op, 'ty, 'json, 'raw) operation_env =
  OperationType :: "'op \<Rightarrow> string"
  TypeOf :: "'op \<Rightarrow> 'ty"
  Marshal :: "'op DecodedOperation \<Rightarrow> string + 'json"
  Unmarshal_partial :: "'json \<Rightarrow> string + 'raw PartiallyDecodedOperation"
  Unmarshal_operation :: "'ty \<Rightarrow> 'raw \<Rightarrow> string + 'op Operation"

text \<open>\<^verbatim>\<open>RegisterOperationType\<close>, called on a pointer to a struct as the \<^verbatim>\<open>init\<close>
  functions do (the two checks of the kind then pass); \<open>registry\<close> is the global
  \<^verbatim>\<open>OperationTypeMap\<close>.\<close>
definition RegisterOperationType ::
  "('op, 'ty, 'json, 'raw) operation_env \<Rightarrow> (string \<rightharpoonup> 'ty) \<Rightarrow> 'op
     \<Rightarrow> error + (string \<rightharpoonup> 'ty)" where
  "RegisterOperationType env registry op =
     (let name = OperationType env op
      in if registry name \<noteq> None
         then Inl (LogFatal (''operation type registered multiple times: '' @ name))
         else Inr (registry(name \<mapsto> TypeOf env op)))"

definition EncodeOperation ::
  "('op, 'ty, 'json, 'raw) operation_env \<Rightarrow> 'op Operation \<Rightarrow> error + 'json" where
  "EncodeOperation env op =
     (case op of
        Nil_interface \<Rightarrow> Inl (Panic ''you should not EncodeOperation(nil)'')
      | Nil_pointer \<Rightarrow> Inl (Panic ''you should not EncodeOperation(nil)'')
      | Pointer_to m \<Rightarrow>
          (case Marshal env \<lparr>do_T = OperationType env m, do_O = op\<rparr> of
             Inl err \<Rightarrow> Inl (Panic err)
           | Inr bytes \<Rightarrow> Inr bytes))"

text \<open>\<^verbatim>\<open>DecodeOperation\<close> returns the operation or the error, never both.\<close>
definition DecodeOperation ::
  "('op, 'ty, 'json, 'raw) operation_env \<Rightarrow> (string \<rightharpoonup> 'ty) \<Rightarrow> 'json
     \<Rightarrow> string + 'op Operation" where
  "DecodeOperation env registry encoded =
     (case Unmarshal_partial env encoded of
        Inl err \<Rightarrow> Inl err
      | Inr pdo \<Rightarrow>
          (case registry (pdo_T pdo) of
             None \<Rightarrow> Inl (''unregistered op type: '' @ pdo_T pdo)
           | Some opType \<Rightarrow>
               (case Unmarshal_operation env opType (pdo_O pdo) of
                  Inl err \<Rightarrow> Inl err
                | Inr Nil_interface \<Rightarrow> Inl ''it looks like a nil operation got encoded''
                | Inr op \<Rightarrow> Inr op)))"

definition EncodeThenDecodeOperation ::
  "('op, 'ty, 'json, 'raw) operation_env \<Rightarrow> (string \<rightharpoonup> 'ty) \<Rightarrow> 'op Operation
     \<Rightarrow> error + 'op Operation" where
  "EncodeThenDecodeOperation env registry operation =
     (case EncodeOperation env operation of
        Inl e \<Rightarrow> Inl e
      | Inr encoded \<Rightarrow>
          (case DecodeOperation env registry encoded of
             Inl err \<Rightarrow> Inl (LogFatal (''EncodeThenDecodeOperation error:'' @ err))
           | Inr op \<Rightarrow> Inr op))"

subsection \<open>The operation of operation_test.go and what encoding/json does with it\<close>

record TestingOperation =
  Number :: go_int
  Signer :: string

definition TestingOperation_OperationType :: "TestingOperation \<Rightarrow> string" where
  "TestingOperation_OperationType op = ''Testing''"

text \<open>The one \<^verbatim>\<open>reflect.Type\<close> the tests register.\<close>
datatype struct_type = TestingOperation_struct

text \<open>
  Modelled from the documentation of Go's packages encoding/json and unicode/utf8, which are
  not code of this repository. A JSON text is taken up to its layout, as its syntax tree;
  numbers are integer literals, and a string is held as the UTF-8 of the characters it
  denotes. The texts of the errors of the package are shortened.
\<close>
datatype json =
    JNull
  | JNumber int
  | JString string
  | JObject "(string \<times> json) list"

text \<open>Modelled from the documentation of unicode/utf8: the number of bytes of the
  well-formed UTF-8 sequence at the head of a list of bytes, 0 when there is none
  (\<^verbatim>\<open>DecodeRune\<close> then yields \<^verbatim>\<open>RuneError\<close> with width 1).\<close>
definition continuation :: "nat \<Rightarrow> bool" where
  "continuation b = (0x80 \<le> b \<and> b \<le> 0xBF)"

fun utf8_width :: "nat list \<Rightarrow> nat" where
  "utf8_width [] = 0"
| "utf8_width (b0 # rest) =
     (if b0 < 0x80 then 1
      else if 0xC2 \<le> b0 \<and> b0 \<le> 0xDF then
        (case rest of
           b1 # _ \<Rightarrow> if continuation b1 then 2 else 0
         | _ \<Rightarrow> 0)
      else if 0xE0 \<le> b0 \<and> b0 \<le> 0xEF then
        (case rest of
           b1 # b2 # _ \<Rightarrow>
             if (if b0 = 0xE0 then 0xA0 \<le> b1 \<and> b1 \<le> 0xBF
                 else if b0 = 0xED then 0x80 \<le> b1 \<and> b1 \<le> 0x9F
                 else continuation b1)
                \<and> continuation b2
             then 3 else 0
         | _ \<Rightarrow> 0)
      else if 0xF0 \<le> b0 \<and> b0 \<le> 0xF4 then
        (case rest of
           b1 # b2 # b3 # _ \<Rightarrow>
             if (if b0 = 0xF0 then 0x90 \<le> b1 \<and> b1 \<le> 0xBF
                 else if b0 = 0xF4 then 0x80 \<le> b1 \<and> b1 \<le> 0x8F
                 else continuation b1)
                \<and> continuation b2 \<and> continuation b3
             then 4 else 0
         | _ \<Rightarrow> 0)
      else 0)"

text \<open>Modelled from the documentation of encoding/json: "String values encode as JSON
  strings coerced to valid UTF-8, replacing invalid bytes with the Unicode replacement
  rune". The first argument counts the bytes still to copy of the sequence under way; the
  replacement rune U+FFFD is the three bytes EF BF BD.\<close>
fun coerce_from :: "nat \<Rightarrow> string \<Rightarrow> string" where
  "coerce_from k [] = []"
| "coerce_from k (c # cs) =
     (if 0 < k then c # coerce_from (k - 1) cs
      else
        let width = utf8_width (map of_char (c # cs))
        in if width = 0 then [CHR 0xEF, CHR 0xBF, CHR 0xBD] @ coerce_from 0 cs
           else c # coerce_from (width - 1) cs)"

definition coerce_utf8 :: "string \<Rightarrow> string" where
  "coerce_utf8 s = coerce_from 0 s"

text \<open>Modelled from the documentation of encoding/json: a struct encodes as an object
  with one member for each exported field, under the name of the field; an integer as a
  number.\<close>
definition json_of_TestingOperation :: "TestingOperation \<Rightarrow> json" where
  "json_of_TestingOperation op =
     JObject [(''Number'', JNumber (sint (Number op))),
              (''Signer'', JString (coerce_utf8 (Signer op)))]"

text \<open>Modelled from the documentation of encoding/json: a nil interface value and a nil
  pointer encode as null, a pointer as the value pointed to.\<close>
definition testing_Marshal :: "TestingOperation DecodedOperation \<Rightarrow> string + json" where
  "testing_Marshal d =
     Inr (JObject
            [(''T'', JString (coerce_utf8 (do_T d))),
             (''O'', (case do_O d of
                        Nil_interface \<Rightarrow> JNull
                      | Nil_pointer \<Rightarrow> JNull
                      | Pointer_to op \<Rightarrow> json_of_TestingOperation op))])"

text \<open>The member of an object that \<^verbatim>\<open>Unmarshal\<close> stores in a field: the last one under
  the name of the field, spelled as \<^verbatim>\<open>Marshal\<close> writes it (a name that differs in case
  only is not looked for).\<close>
definition member :: "(string \<times> json) list \<Rightarrow> string \<Rightarrow> json option" where
  "member pairs name = map_of (rev pairs) name"

text \<open>Modelled from the documentation of encoding/json: \<^verbatim>\<open>Unmarshal\<close> into a struct takes
  an object and stores its members in the fields of their names; a missing member and a
  null leave a string field as it is; a \<^verbatim>\<open>RawMessage\<close> takes the text of its member
  as it is, null included, and stays nil (\<open>None\<close>) without one; null for the struct itself
  has no effect; anything else is an error.\<close>
definition testing_Unmarshal_partial ::
  "json \<Rightarrow> string + (json option) PartiallyDecodedOperation" where
  "testing_Unmarshal_partial j =
     (case j of
        JNull \<Rightarrow> Inr \<lparr>pdo_T = [], pdo_O = None\<rparr>
      | JObject pairs \<Rightarrow>
          (case member pairs ''T'' of
             None \<Rightarrow> Inr \<lparr>pdo_T = [], pdo_O = member pairs ''O''\<rparr>
           | Some JNull \<Rightarrow> Inr \<lparr>pdo_T = [], pdo_O = member pairs ''O''\<rparr>
           | Some (JString t) \<Rightarrow> Inr \<lparr>pdo_T = t, pdo_O = member pairs ''O''\<rparr>
           | Some _ \<Rightarrow> Inl ''json: cannot unmarshal into Go struct field T of type string'')
      | _ \<Rightarrow> Inl ''json: cannot unmarshal into Go value of type PartiallyDecodedOperation'')"

text \<open>Modelled from the documentation of encoding/json: \<^verbatim>\<open>Unmarshal\<close> of the payload
  into the interface variable that holds a pointer to a new, zero
  \<^verbatim>\<open>TestingOperation\<close>: null sets the interface to nil; an object is stored in the
  struct pointed to, a number only if it fits the 64 bits of the field; an empty text and
  anything else are errors.\<close>
definition testing_Unmarshal_operation ::
  "struct_type \<Rightarrow> json option \<Rightarrow> string + TestingOperation Operation" where
  "testing_Unmarshal_operation opType raw =
     (case raw of
        None \<Rightarrow> Inl ''unexpected end of JSON input''
      | Some JNull \<Rightarrow> Inr Nil_interface
      | Some (JObject pairs) \<Rightarrow>
          (case (case member pairs ''Number'' of
                   None \<Rightarrow> Inr 0
                 | Some JNull \<Rightarrow> Inr 0
                 | Some (JNumber k) \<Rightarrow>
                     if - (2 ^ 63) \<le> k \<and> k < 2 ^ 63 then Inr (word_of_int k)
                     else Inl ''json: cannot unmarshal number into Go struct field Number of type int''
                 | Some _ \<Rightarrow> Inl ''json: cannot unmarshal into Go struct field Number of type int'') of
             Inl err \<Rightarrow> Inl err
           | Inr number \<Rightarrow>
               (case member pairs ''Signer'' of
                  None \<Rightarrow> Inr (Pointer_to \<lparr>Number = number, Signer = []\<rparr>)
                | Some JNull \<Rightarrow> Inr (Pointer_to \<lparr>Number = number, Signer = []\<rparr>)
                | Some (JString signer) \<Rightarrow> Inr (Pointer_to \<lparr>Number = number, Signer = signer\<rparr>)
                | Some _ \<Rightarrow> Inl ''json: cannot unmarshal into Go struct field Signer of type string''))
      | Some _ \<Rightarrow> Inl ''json: cannot unmarshal into Go value of type TestingOperation'')"

definition testing_env ::
  "(TestingOperation, struct_type, json, json option) operation_env" where
  "testing_env =
     \<lparr>OperationType = TestingOperation_OperationType,
      TypeOf = (\<lambda>op. TestingOperation_struct),
      Marshal = testing_Marshal,
      Unmarshal_partial = testing_Unmarshal_partial,
      Unmarshal_operation = testing_Unmarshal_operation\<rparr>"

text \<open>The registry after the \<^verbatim>\<open>init\<close> of operation_test.go, which registers
  \<^verbatim>\<open>&TestingOperation{}\<close>.\<close>
definition testing_registry :: "string \<rightharpoonup> struct_type" where
  "testing_registry = [''Testing'' \<mapsto> TestingOperation_struct]"







section \<open>Sequences of calls and predicates\<close>

subsection \<open>Sequences of calls\<close>

datatype 'v NominationCall =
    Call_SetDefault 'v
  | Call_Handle string "'v NominationMessage"
  | Call_MaybeAdvance 'v

fun nomination_call :: "'v NominationCall \<Rightarrow> 'v NominationState \<Rightarrow> 'v NominationState" where
  "nomination_call (Call_SetDefault v) s = SetDefault v s"
| "nomination_call (Call_Handle node m) s = NominationState_Handle node m s"
| "nomination_call (Call_MaybeAdvance v) s = snd (MaybeAdvance v s)"

fun nomination_run :: "'v NominationCall list \<Rightarrow> 'v NominationState \<Rightarrow> 'v NominationState" where
  "nomination_run [] s = s"
| "nomination_run (c # cs) s = nomination_run cs (nomination_call c s)"

datatype 'v BallotCall =
    Call_MaybeAcceptAsPrepared go_int 'v
  | Call_MaybeConfirmAsPrepared go_int 'v
  | Call_MaybeAcceptAsCommitted go_int 'v
  | Call_MaybeConfirmAsCommitted go_int 'v
  | Call_MaybeNextBallot
  | Call_Investigate go_int 'v
  | Call_BallotHandle string "'v BallotMessage"

fun ballot_call ::
  "'v BallotMessage_methods \<Rightarrow> nat \<Rightarrow> 'v BallotCall \<Rightarrow> 'v BallotState
     \<Rightarrow> (error + 'v BallotState) option" where
  "ballot_call ops fuel (Call_MaybeAcceptAsPrepared n x) s = Some (MaybeAcceptAsPrepared ops n x s)"
| "ballot_call ops fuel (Call_MaybeConfirmAsPrepared n x) s = Some (Inr (MaybeConfirmAsPrepared ops n x s))"
| "ballot_call ops fuel (Call_MaybeAcceptAsCommitted n x) s = Some (Inr (MaybeAcceptAsCommitted ops n x s))"
| "ballot_call ops fuel (Call_MaybeConfirmAsCommitted n x) s = Some (Inr (MaybeConfirmAsCommitted ops n x s))"
| "ballot_call ops fuel Call_MaybeNextBallot s = Some (Inr (snd (MaybeNextBallot ops s)))"
| "ballot_call ops fuel (Call_Investigate n x) s = Some (Investigate ops n x s)"
| "ballot_call ops fuel (Call_BallotHandle node message) s = BallotState_Handle ops fuel node message s"

text \<open>A sequence of calls stops at the first one that does not return.\<close>
fun ballot_run ::
  "'v BallotMessage_methods \<Rightarrow> nat \<Rightarrow> 'v BallotCall list \<Rightarrow> 'v BallotState
     \<Rightarrow> (error + 'v BallotState) option" where
  "ballot_run ops fuel [] s = Some (Inr s)"
| "ballot_run ops fuel (c # cs) s =
     (case ballot_call ops fuel c s of
        None \<Rightarrow> None
      | Some (Inl e) \<Rightarrow> Some (Inl e)
      | Some (Inr s1) \<Rightarrow> ballot_run ops fuel cs s1)"

subsection \<open>Predicates used in the statements and proofs\<close>

text \<open>A node stays in the closure when its slice is known and satisfied.\<close>
definition slice_ok :: "(string \<Rightarrow> QuorumSlice option) \<Rightarrow> string list \<Rightarrow> string \<Rightarrow> bool" where
  "slice_ok lookup Q u = (case lookup u of None \<Rightarrow> False | Some qs \<Rightarrow> SatisfiedBy qs Q)"

text \<open>The message passes the three checks at the head of \<^verbatim>\<open>NominationState.Handle\<close>:
  it is neither stale nor a duplicate.\<close>
definition is_news :: "string \<Rightarrow> 'v NominationMessage \<Rightarrow> 'v NominationState \<Rightarrow> bool" where
  "is_news node m s =
     (case map_of (ns_N s) node of
        None \<Rightarrow> \<not> (length (nm_X m) = 0 \<and> length (nm_Y m) = 0)
      | Some old \<Rightarrow>
          \<not> length (nm_X m) < length (nm_X old) \<and> \<not> length (nm_Y m) < length (nm_Y old)
          \<and> \<not> (length (nm_X m) = length (nm_X old) \<and> length (nm_Y m) = length (nm_Y old)))"





text \<open>A predicate on ballot states that every one of the five operations keeps.\<close>
definition op_closed :: "'v BallotMessage_methods \<Rightarrow> ('v BallotState \<Rightarrow> bool) \<Rightarrow> bool" where
  "op_closed ops P =
     (\<forall>s. P s \<longrightarrow>
        (\<forall>n x. (\<forall>s'. MaybeAcceptAsPrepared ops n x s = Inr s' \<longrightarrow> P s')
               \<and> P (MaybeConfirmAsPrepared ops n x s)
               \<and> P (MaybeAcceptAsCommitted ops n x s)
               \<and> P (MaybeConfirmAsCommitted ops n x s))
        \<and> P (snd (MaybeNextBallot ops s)))"

text \<open>A predicate on ballot states that does not depend on the stored messages.\<close>
definition store_closed :: "('v BallotState \<Rightarrow> bool) \<Rightarrow> bool" where
  "store_closed P = (\<forall>s M. P s \<longrightarrow> P (s\<lparr>bs_M := M\<rparr>))"

text \<open>What the code keeps of \<open>p\<close> and \<open>p'\<close>: when \<open>p'\<close> is set so is \<open>p\<close>, their values
  differ, and the number of \<open>p'\<close> is at most the number of \<open>p\<close>.\<close>
definition prepared_inv :: "'v BallotState \<Rightarrow> bool" where
  "prepared_inv s =
     (case bs_pPrime s of
        None \<Rightarrow> True
      | Some pp \<Rightarrow>
          (case bs_p s of
             None \<Rightarrow> False
           | Some p \<Rightarrow> \<not> Equal (ballot_x p) (ballot_x pp) \<and> ballot_n pp \<le>s ballot_n p))"

text \<open>Modelled from the spec: the order on ballots, which scp.go never computes:
  lexicographic on \<open>(n, x)\<close>, the values in their canonical order.\<close>
definition ballot_less :: "('v::linorder) Ballot \<Rightarrow> 'v Ballot \<Rightarrow> bool" where
  "ballot_less a c =
     (ballot_n a <s ballot_n c \<or> (ballot_n a = ballot_n c \<and> ballot_x a < ballot_x c))"

text \<open>\<open>z\<close> agrees with \<open>b.x\<close> whenever \<open>b\<close> is set.\<close>
definition z_agrees :: "'v BallotState \<Rightarrow> bool" where
  "z_agrees s = (case bs_b s of None \<Rightarrow> True | Some b \<Rightarrow> bs_z s = Some (ballot_x b))"

text \<open>Neither \<open>p\<close> nor \<open>p'\<close> holds a ballot with number 0.\<close>
definition prepared_nonzero :: "'v BallotState \<Rightarrow> bool" where
  "prepared_nonzero s =
     ((case bs_p s of None \<Rightarrow> True | Some p \<Rightarrow> ballot_n p \<noteq> 0)
      \<and> (case bs_pPrime s of None \<Rightarrow> True | Some pp \<Rightarrow> ballot_n pp \<noteq> 0))"

subsection \<open>A sample implementation of the message interface, and sample inputs\<close>

text \<open>
  The theorems about the ballot state hold for every \<open>ops\<close>. To run the model on concrete
  inputs one implementation is needed; this one reads the fields of the message in
  the way the protocol paper describes. No general statement depends on it.
\<close>
definition sample_AcceptAsPrepared :: "'v BallotMessage \<Rightarrow> go_int \<Rightarrow> 'v \<Rightarrow> bool" where
  "sample_AcceptAsPrepared m n x =
     (case m of
        Prepare_Message pm \<Rightarrow>
          (n \<le>s pm_Pn pm \<and> pm_Px pm = x) \<or> (n \<le>s pm_Ppn pm \<and> pm_Ppx pm = x)
      | Confirm_Message cm \<Rightarrow> cm_X cm = x
      | Externalize_Message em \<Rightarrow> em_X em = x)"

definition sample_VoteToPrepare :: "'v BallotMessage \<Rightarrow> go_int \<Rightarrow> 'v \<Rightarrow> bool" where
  "sample_VoteToPrepare m n x =
     (case m of
        Prepare_Message pm \<Rightarrow> n \<le>s pm_Bn pm \<and> pm_Bx pm = x
      | Confirm_Message cm \<Rightarrow> cm_X cm = x
      | Externalize_Message em \<Rightarrow> em_X em = x)"

definition sample_AcceptAsCommitted :: "'v BallotMessage \<Rightarrow> go_int \<Rightarrow> 'v \<Rightarrow> bool" where
  "sample_AcceptAsCommitted m n x =
     (case m of
        Prepare_Message pm \<Rightarrow> False
      | Confirm_Message cm \<Rightarrow> cm_X cm = x \<and> cm_Cn cm \<le>s n \<and> n \<le>s cm_Hn cm
      | Externalize_Message em \<Rightarrow> em_X em = x \<and> em_Cn em \<le>s n)"

definition sample_VoteToCommit :: "'v BallotMessage \<Rightarrow> go_int \<Rightarrow> 'v \<Rightarrow> bool" where
  "sample_VoteToCommit m n x =
     (case m of
        Prepare_Message pm \<Rightarrow>
          pm_Bx pm = x \<and> pm_Cn pm \<noteq> 0 \<and> pm_Cn pm \<le>s n \<and> n \<le>s pm_Hn pm
      | Confirm_Message cm \<Rightarrow> cm_X cm = x \<and> cm_Cn cm \<le>s n
      | Externalize_Message em \<Rightarrow> em_X em = x \<and> em_Cn em \<le>s n)"

definition sample_BallotNumber :: "'v BallotMessage \<Rightarrow> go_int" where
  "sample_BallotNumber m =
     (case m of
        Prepare_Message pm \<Rightarrow> pm_Bn pm
      | Confirm_Message cm \<Rightarrow> cm_Hn cm
      | Externalize_Message em \<Rightarrow> em_Hn em)"

definition sample_QuorumSlice :: "'v BallotMessage \<Rightarrow> QuorumSlice" where
  "sample_QuorumSlice m =
     (case m of
        Prepare_Message pm \<Rightarrow> pm_D pm
      | Confirm_Message cm \<Rightarrow> cm_D cm
      | Externalize_Message em \<Rightarrow> em_D em)"

fun sample_phase :: "'v BallotMessage \<Rightarrow> nat" where
  "sample_phase (Prepare_Message pm) = 0"
| "sample_phase (Confirm_Message cm) = 1"
| "sample_phase (Externalize_Message em) = 2"

definition sample_Compare :: "'v BallotMessage \<Rightarrow> 'v BallotMessage \<Rightarrow> go_int" where
  "sample_Compare a c =
     (if sample_phase a < sample_phase c then - 1
      else if sample_phase c < sample_phase a then 1
      else if sample_BallotNumber a <s sample_BallotNumber c then - 1
      else if sample_BallotNumber c <s sample_BallotNumber a then 1
      else 0)"

definition sample_methods :: "'v BallotMessage_methods" where
  "sample_methods =
     \<lparr>AcceptAsPrepared = sample_AcceptAsPrepared, VoteToPrepare = sample_VoteToPrepare,
      AcceptAsCommitted = sample_AcceptAsCommitted, VoteToCommit = sample_VoteToCommit,
      BallotNumber = sample_BallotNumber, Message_QuorumSlice = sample_QuorumSlice,
      Compare = sample_Compare\<rparr>"

text \<open>The slice of a node that listens to itself only, and the two-out-of-two slice of
  the nodes a and b.\<close>
definition slice_a :: QuorumSlice where
  "slice_a = \<lparr>Members = [''a''], Threshold = 1\<rparr>"

definition slice_ab :: QuorumSlice where
  "slice_ab = \<lparr>Members = [''a'', ''b''], Threshold = 2\<rparr>"

text \<open>A nomination message of node b that has accepted the value 5 and lists no vote.\<close>
definition nomination_of_b :: "nat NominationMessage" where
  "nomination_of_b = \<lparr>nm_I = 1, nm_X = [], nm_Y = [5], nm_D = slice_ab\<rparr>"

text \<open>The state of node a after it has handled that message.\<close>
definition nomination_after_b :: "nat NominationState" where
  "nomination_after_b =
     \<lparr>ns_X = [], ns_Y = [5], ns_Z = [5], ns_N = [(''b'', nomination_of_b)],
      ns_publicKey = ''a'', ns_D = slice_ab\<rparr>"

text \<open>The same message from a node b whose own slice asks for b and a third node c, so
  that no quorum forms around it.\<close>
definition slice_bc :: QuorumSlice where
  "slice_bc = \<lparr>Members = [''b'', ''c''], Threshold = 2\<rparr>"

definition acceptance_of_b :: "nat NominationMessage" where
  "acceptance_of_b = \<lparr>nm_I = 1, nm_X = [], nm_Y = [5], nm_D = slice_bc\<rparr>"

text \<open>The state of node a after it has handled that one: b alone blocks the slice of a.\<close>
definition nomination_accepted_unvoted :: "nat NominationState" where
  "nomination_accepted_unvoted =
     \<lparr>ns_X = [], ns_Y = [5], ns_Z = [], ns_N = [(''b'', acceptance_of_b)],
      ns_publicKey = ''a'', ns_D = slice_ab\<rparr>"



text \<open>A prepare message of node b: it votes to prepare, and accepts as prepared, the
  ballot \<open>(1, 7)\<close>.\<close>
definition prepare_of_b :: "nat BallotMessage" where
  "prepare_of_b =
     Prepare_Message
       \<lparr>pm_T = Prepare, pm_I = 1, pm_Bn = 1, pm_Bx = 7, pm_Pn = 1, pm_Px = 7,
        pm_Ppn = 0, pm_Ppx = 0, pm_Cn = 0, pm_Hn = 0, pm_D = slice_ab\<rparr>"

text \<open>The state of node a after it has handled that message.\<close>
definition ballot_after_b :: "nat BallotState" where
  "ballot_after_b =
     \<lparr>bs_phase = Prepare, bs_b = Some \<lparr>ballot_n = 1, ballot_x = 7\<rparr>,
      bs_p = Some \<lparr>ballot_n = 1, ballot_x = 7\<rparr>, bs_pPrime = None, bs_cn = 1, bs_hn = 1,
      bs_z = Some 7, bs_M = [(''b'', prepare_of_b)], bs_publicKey = ''a'', bs_D = slice_ab\<rparr>"

text \<open>The state of a node that listens to itself only, after it has accepted as prepared
  \<open>(1, 1)\<close> and then \<open>(1, 0)\<close>.\<close>
definition ballot_equal_numbers :: "nat BallotState" where
  "ballot_equal_numbers =
     \<lparr>bs_phase = Prepare, bs_b = None,
      bs_p = Some \<lparr>ballot_n = 1, ballot_x = 0\<rparr>, bs_pPrime = Some \<lparr>ballot_n = 1, ballot_x = 1\<rparr>,
      bs_cn = 0, bs_hn = 0, bs_z = None, bs_M = [], bs_publicKey = ''a'', bs_D = slice_a\<rparr>"

text \<open>The state of a node that listens to itself only, after it has investigated the
  ballot \<open>(1, 7)\<close>: it is its own quorum and externalizes at once.\<close>
definition ballot_solo_externalized :: "nat BallotState" where
  "ballot_solo_externalized =
     \<lparr>bs_phase = Externalize, bs_b = Some \<lparr>ballot_n = 1, ballot_x = 7\<rparr>,
      bs_p = Some \<lparr>ballot_n = 1, ballot_x = 7\<rparr>, bs_pPrime = None, bs_cn = 1, bs_hn = 1,
      bs_z = Some 7, bs_M = [], bs_publicKey = ''a'', bs_D = slice_a\<rparr>"

text \<open>Node a works on ballot number 1 and the latest message of node b carries number 3.\<close>
definition ballot_behind_b :: "nat BallotState" where
  "ballot_behind_b =
     \<lparr>bs_phase = Prepare, bs_b = Some \<lparr>ballot_n = 1, ballot_x = 7\<rparr>,
      bs_p = Some \<lparr>ballot_n = 1, ballot_x = 7\<rparr>, bs_pPrime = None, bs_cn = 1, bs_hn = 1,
      bs_z = Some 7,
      bs_M = [(''b'', Prepare_Message
                 \<lparr>pm_T = Prepare, pm_I = 1, pm_Bn = 3, pm_Bx = 7, pm_Pn = 1, pm_Px = 7,
                  pm_Ppn = 0, pm_Ppx = 0, pm_Cn = 0, pm_Hn = 0, pm_D = slice_ab\<rparr>)],
      bs_publicKey = ''a'', bs_D = slice_ab\<rparr>"

section \<open>Properties of the quorum predicate\<close>

lemma HasSlotValue_iff: "HasSlotValue list v \<longleftrightarrow> v \<in> set list"
  by (auto simp: HasSlotValue_def Equal_def list_ex_iff)

lemma length_filter_mono:
  "(\<And>a. a \<in> set xs \<Longrightarrow> P a \<Longrightarrow> Q a) \<Longrightarrow> length (filter P xs) \<le> length (filter Q xs)"
  by (induction xs) auto

lemma SatisfiedBy_mono:
  assumes "set S \<subseteq> set T" and "SatisfiedBy qs S"
  shows "SatisfiedBy qs T"
proof -
  have "length (filter (\<lambda>member. member \<in> set S) (Members qs))
        \<le> length (filter (\<lambda>member. member \<in> set T) (Members qs))"
    using assms(1) by (intro length_filter_mono) auto
  with assms(2) show ?thesis
    by (simp add: SatisfiedBy_def)
qed

lemma BlockedBy_cong: "set S = set T \<Longrightarrow> BlockedBy qs S = BlockedBy qs T"
  by (simp add: BlockedBy_def)

lemma slice_ok_mono: "set S \<subseteq> set T \<Longrightarrow> slice_ok lookup S u \<Longrightarrow> slice_ok lookup T u"
  by (auto simp: slice_ok_def split: option.splits intro: SatisfiedBy_mono)

lemma quorum_closure_step:
  "length (filter (slice_ok lookup Q) Q) < length Q \<Longrightarrow>
     quorum_closure lookup Q = quorum_closure lookup (filter (slice_ok lookup Q) Q)"
  by (subst quorum_closure.simps) (simp add: slice_ok_def[abs_def] Let_def)

lemma quorum_closure_stop:
  "\<not> length (filter (slice_ok lookup Q) Q) < length Q \<Longrightarrow> quorum_closure lookup Q = Q"
  by (subst quorum_closure.simps) (simp add: slice_ok_def[abs_def] Let_def)

lemma quorum_closure_subset: "set (quorum_closure lookup Q) \<subseteq> set Q"
proof (induction lookup Q rule: quorum_closure.induct)
  case (1 lookup Q)
  show ?case
  proof (cases "length (filter (slice_ok lookup Q) Q) < length Q")
    case True
    with 1 have "set (quorum_closure lookup (filter (slice_ok lookup Q) Q))
                 \<subseteq> set (filter (slice_ok lookup Q) Q)"
      by (simp add: slice_ok_def[abs_def])
    with quorum_closure_step[OF True] show ?thesis by auto
  next
    case False
    then show ?thesis by (simp add: quorum_closure_stop)
  qed
qed

text \<open>The result is a fixed point: every node left has its slice satisfied by the result.\<close>
lemma quorum_closure_fixed:
  "u \<in> set (quorum_closure lookup Q) \<Longrightarrow> slice_ok lookup (quorum_closure lookup Q) u"
proof (induction lookup Q rule: quorum_closure.induct)
  case (1 lookup Q)
  show ?case
  proof (cases "length (filter (slice_ok lookup Q) Q) < length Q")
    case True
    with 1 quorum_closure_step[OF True] show ?thesis
      by (simp add: slice_ok_def[abs_def])
  next
    case False
    then have eq: "quorum_closure lookup Q = Q"
      by (rule quorum_closure_stop)
    from False have "length (filter (slice_ok lookup Q) Q) = length Q"
      using length_filter_le[of "slice_ok lookup Q" Q] by linarith
    then have "filter (slice_ok lookup Q) Q = Q"
      by (metis filter_True length_filter_less linorder_neq_iff)
    then have "\<forall>u\<in>set Q. slice_ok lookup Q u"
      by (metis filter_id_conv)
    with 1(2) eq show ?thesis by simp
  qed
qed

text \<open>It is the greatest one: a set of nodes that satisfies the slices of its own members
  is never removed.\<close>
lemma quorum_closure_keeps:
  "T \<subseteq> set Q \<Longrightarrow> (\<And>u S. u \<in> T \<Longrightarrow> T \<subseteq> set S \<Longrightarrow> slice_ok lookup S u)
     \<Longrightarrow> T \<subseteq> set (quorum_closure lookup Q)"
proof (induction lookup Q rule: quorum_closure.induct)
  case (1 lookup Q)
  show ?case
  proof (cases "length (filter (slice_ok lookup Q) Q) < length Q")
    case True
    have "T \<subseteq> set (filter (slice_ok lookup Q) Q)"
      using 1(2) 1(3)[OF _ 1(2)] by auto
    with 1(1)[OF refl] True 1(3) quorum_closure_step[OF True] show ?thesis
      by (simp add: slice_ok_def[abs_def])
  next
    case False
    with 1(2) show ?thesis by (simp add: quorum_closure_stop)
  qed
qed

lemma quorum_closure_mono:
  assumes "set Q1 \<subseteq> set Q2"
  shows "set (quorum_closure lookup Q1) \<subseteq> set (quorum_closure lookup Q2)"
proof (rule quorum_closure_keeps)
  show "set (quorum_closure lookup Q1) \<subseteq> set Q2"
    using quorum_closure_subset[of lookup Q1] assms by blast
next
  fix u S
  assume "u \<in> set (quorum_closure lookup Q1)" and "set (quorum_closure lookup Q1) \<subseteq> set S"
  then show "slice_ok lookup S u"
    using quorum_closure_fixed slice_ok_mono by blast
qed

lemma MeetsQuorum_mono:
  assumes "set S \<subseteq> set T" and "MeetsQuorum lookup v S"
  shows "MeetsQuorum lookup v T"
proof -
  have "set (filter (\<lambda>u. lookup u \<noteq> None) (v # S)) \<subseteq> set (filter (\<lambda>u. lookup u \<noteq> None) (v # T))"
    using assms(1) by auto
  from quorum_closure_mono[OF this] assms(2) show ?thesis
    unfolding MeetsQuorum_def by blast
qed

section \<open>Nomination\<close>

lemma nomination_tally_subset:
  "set accepted \<subseteq> set votedOrAccepted \<Longrightarrow>
   set (snd (nomination_tally v N (votedOrAccepted, accepted)))
     \<subseteq> set (fst (nomination_tally v N (votedOrAccepted, accepted)))"
  by (induction v N "(votedOrAccepted, accepted)" arbitrary: votedOrAccepted accepted
      rule: nomination_tally.induct) auto

lemma NominationState_QuorumSlice_frame:
  "ns_N s' = ns_N s \<Longrightarrow> ns_publicKey s' = ns_publicKey s \<Longrightarrow> ns_D s' = ns_D s
     \<Longrightarrow> NominationState_QuorumSlice s' = NominationState_QuorumSlice s"
  by (rule ext) (simp add: NominationState_QuorumSlice_def)

lemma MaybeAdvance_frame:
  "ns_N (snd (MaybeAdvance v s)) = ns_N s \<and> ns_publicKey (snd (MaybeAdvance v s)) = ns_publicKey s
   \<and> ns_D (snd (MaybeAdvance v s)) = ns_D s \<and> ns_X (snd (MaybeAdvance v s)) = ns_X s"
  by (simp add: MaybeAdvance_def Let_def split: prod.splits)

lemma MaybeAdvance_Y:
  "ns_Y (snd (MaybeAdvance v s)) = ns_Y s
   \<or> (v \<notin> set (ns_Y s) \<and> ns_Y (snd (MaybeAdvance v s)) = ns_Y s @ [v])"
  by (simp add: MaybeAdvance_def Let_def HasSlotValue_iff split: prod.splits)

lemma MaybeAdvance_Z:
  "ns_Z (snd (MaybeAdvance v s)) = ns_Z s
   \<or> (v \<notin> set (ns_Z s) \<and> ns_Z (snd (MaybeAdvance v s)) = ns_Z s @ [v])"
  by (simp add: MaybeAdvance_def Let_def HasSlotValue_iff split: prod.splits)

lemma MaybeAdvance_grows:
  "set (ns_Y s) \<subseteq> set (ns_Y (snd (MaybeAdvance v s)))
   \<and> set (ns_Z s) \<subseteq> set (ns_Z (snd (MaybeAdvance v s)))"
  using MaybeAdvance_Y[of v s] MaybeAdvance_Z[of v s] by auto


text \<open>A value is confirmed only if it is accepted: a quorum of nodes that accepted it is
  also a quorum of nodes that voted for or accepted it.\<close>
lemma MaybeAdvance_Z_in_Y:
  assumes "set (ns_Z s) \<subseteq> set (ns_Y s)"
  shows "set (ns_Z (snd (MaybeAdvance v s))) \<subseteq> set (ns_Y (snd (MaybeAdvance v s)))"
proof (cases "HasSlotValue (ns_Z s) v")
  case True
  then show ?thesis using assms by (simp add: MaybeAdvance_def)
next
  case False
  define voa0 where "voa0 = (if HasSlotValue (ns_X s) v then [ns_publicKey s] else [])"
  define acc0 where "acc0 = (if HasSlotValue (ns_Y s) v then [ns_publicKey s] else [])"
  define voa where "voa = fst (nomination_tally v (ns_N s) (voa0, acc0))"
  define acc where "acc = snd (nomination_tally v (ns_N s) (voa0, acc0))"
  define accept where
    "accept = (MeetsQuorum (NominationState_QuorumSlice s) (ns_publicKey s) voa
               \<or> BlockedBy (ns_D s) acc)"
  define s1 where
    "s1 = (if accept \<and> \<not> HasSlotValue (ns_Y s) v then s\<lparr>ns_Y := ns_Y s @ [v]\<rparr> else s)"
  have qs1: "NominationState_QuorumSlice s1 = NominationState_QuorumSlice s"
    by (rule NominationState_QuorumSlice_frame) (simp_all add: s1_def)
  have pk1: "ns_publicKey s1 = ns_publicKey s" by (simp add: s1_def)
  have "snd (MaybeAdvance v s) =
      (if MeetsQuorum (NominationState_QuorumSlice s1) (ns_publicKey s1) acc
       then s1\<lparr>ns_Z := ns_Z s1 @ [v]\<rparr> else s1)"
    using False
    unfolding MaybeAdvance_def Let_def case_prod_beta voa0_def acc0_def voa_def acc_def
      accept_def s1_def
    by (simp add: if_distrib[of snd] if_distrib[of fst] cong: if_cong)
  then have res: "snd (MaybeAdvance v s) =
      (if MeetsQuorum (NominationState_QuorumSlice s) (ns_publicKey s) acc
       then s1\<lparr>ns_Z := ns_Z s1 @ [v]\<rparr> else s1)"
    by (simp only: qs1 pk1)
  have Z1: "ns_Z s1 = ns_Z s" by (simp add: s1_def)
  have Y1: "set (ns_Y s) \<subseteq> set (ns_Y s1)" by (auto simp: s1_def)
  show ?thesis
  proof (cases "MeetsQuorum (NominationState_QuorumSlice s) (ns_publicKey s) acc")
    case False
    with res Z1 Y1 assms show ?thesis by auto
  next
    case True
    have "v \<in> set (ns_Y s1)"
    proof (cases "HasSlotValue (ns_Y s) v")
      case True
      then show ?thesis using Y1 by (auto simp: HasSlotValue_iff)
    next
      case nY: False
      then have "acc0 = []" by (simp add: acc0_def)
      then have "set acc \<subseteq> set voa"
        unfolding acc_def voa_def by (intro nomination_tally_subset) simp
      from MeetsQuorum_mono[OF this True] have accept by (simp add: accept_def)
      with nY show ?thesis by (simp add: s1_def)
    qed
    with res True Z1 Y1 assms show ?thesis by auto
  qed
qed

lemma advance_all_frame:
  "ns_N (advance_all vs s) = ns_N s \<and> ns_publicKey (advance_all vs s) = ns_publicKey s
   \<and> ns_D (advance_all vs s) = ns_D s \<and> ns_X (advance_all vs s) = ns_X s"
  by (induction vs arbitrary: s) (simp_all add: MaybeAdvance_frame)

lemma advance_all_grows:
  "set (ns_Y s) \<subseteq> set (ns_Y (advance_all vs s)) \<and> set (ns_Z s) \<subseteq> set (ns_Z (advance_all vs s))"
proof (induction vs arbitrary: s)
  case Nil
  then show ?case by simp
next
  case (Cons v vs)
  from Cons[of "snd (MaybeAdvance v s)"] MaybeAdvance_grows[of s v]
  show ?case by auto
qed

lemma advance_all_Z_in_Y:
  "set (ns_Z s) \<subseteq> set (ns_Y s)
     \<Longrightarrow> set (ns_Z (advance_all vs s)) \<subseteq> set (ns_Y (advance_all vs s))"
  by (induction vs arbitrary: s) (simp_all add: MaybeAdvance_Z_in_Y)

lemma support_new_frame:
  "ns_N (snd (support_new ws (touched, s))) = ns_N s
   \<and> ns_publicKey (snd (support_new ws (touched, s))) = ns_publicKey s
   \<and> ns_D (snd (support_new ws (touched, s))) = ns_D s
   \<and> ns_Y (snd (support_new ws (touched, s))) = ns_Y s
   \<and> ns_Z (snd (support_new ws (touched, s))) = ns_Z s
   \<and> set (ns_X s) \<subseteq> set (ns_X (snd (support_new ws (touched, s))))"
proof (induction ws arbitrary: touched s)
  case Nil
  then show ?case by simp
next
  case (Cons w ws)
  let ?t = "if \<not> HasSlotValue touched w then touched @ [w] else touched"
  let ?s = "if \<not> HasSlotValue (ns_X s) w then s\<lparr>ns_X := ns_X s @ [w]\<rparr> else s"
  have "support_new (w # ws) (touched, s) = support_new ws (?t, ?s)"
    by (simp add: Let_def)
  with Cons[of ?t ?s] show ?case by auto
qed

lemma NominationState_Handle_stale: "\<not> is_news node m s \<Longrightarrow> NominationState_Handle node m s = s"
  by (auto simp: is_news_def NominationState_Handle_def split: option.splits)

lemma NominationState_Handle_fresh:
  assumes "is_news node m s"
  shows "\<exists>ws touched. NominationState_Handle node m s =
     advance_all touched
       (snd (support_new ws ([], s\<lparr>ns_N := AList.update node m (ns_N s)\<rparr>)))"
proof (cases "map_of (ns_N s) node")
  case None
  with assms have "NominationState_Handle node m s =
     advance_all (touch_new (nm_Y m)
        (fst (support_new (nm_X m) ([], s\<lparr>ns_N := AList.update node m (ns_N s)\<rparr>))))
       (snd (support_new (nm_X m) ([], s\<lparr>ns_N := AList.update node m (ns_N s)\<rparr>)))"
    by (auto simp: is_news_def NominationState_Handle_def Let_def case_prod_beta)
  then show ?thesis by blast
next
  case (Some old)
  with assms have "NominationState_Handle node m s =
     advance_all (touch_new (drop (length (nm_Y old)) (nm_Y m))
        (fst (support_new (drop (length (nm_X old)) (nm_X m))
               ([], s\<lparr>ns_N := AList.update node m (ns_N s)\<rparr>))))
       (snd (support_new (drop (length (nm_X old)) (nm_X m))
               ([], s\<lparr>ns_N := AList.update node m (ns_N s)\<rparr>)))"
    by (auto simp: is_news_def NominationState_Handle_def Let_def case_prod_beta)
  then show ?thesis by blast
qed

lemma NominationState_Handle_props:
  "set (ns_X s) \<subseteq> set (ns_X (NominationState_Handle node m s))
   \<and> set (ns_Y s) \<subseteq> set (ns_Y (NominationState_Handle node m s))
   \<and> set (ns_Z s) \<subseteq> set (ns_Z (NominationState_Handle node m s))
   \<and> (set (ns_Z s) \<subseteq> set (ns_Y s) \<longrightarrow>
        set (ns_Z (NominationState_Handle node m s))
          \<subseteq> set (ns_Y (NominationState_Handle node m s)))
   \<and> ns_N (NominationState_Handle node m s)
       = (if is_news node m s then AList.update node m (ns_N s) else ns_N s)"
proof (cases "is_news node m s")
  case False
  then show ?thesis by (simp add: NominationState_Handle_stale)
next
  case True
  from NominationState_Handle_fresh[OF True] obtain ws touched where
    eq: "NominationState_Handle node m s = advance_all touched
       (snd (support_new ws ([], s\<lparr>ns_N := AList.update node m (ns_N s)\<rparr>)))"
    by blast
  let ?s1 = "s\<lparr>ns_N := AList.update node m (ns_N s)\<rparr>"
  let ?s2 = "snd (support_new ws ([], ?s1))"
  note f2 = support_new_frame[of ws "[]" ?s1]
  note f3 = advance_all_frame[of touched ?s2]
  note g3 = advance_all_grows[of ?s2 touched]
  note z3 = advance_all_Z_in_Y[of ?s2 touched]
  show ?thesis
    unfolding eq using True f2 f3 g3 z3 by auto
qed

text \<open>Handling a message a second time changes nothing: it is stored, or was stale already.\<close>
lemma NominationState_Handle_twice:
  "NominationState_Handle node m (NominationState_Handle node m s)
     = NominationState_Handle node m s"
proof (cases "is_news node m s")
  case False
  then show ?thesis by (simp add: NominationState_Handle_stale)
next
  case True
  have "ns_N (NominationState_Handle node m s) = AList.update node m (ns_N s)"
    using True NominationState_Handle_props[of s node m] by simp
  then have "map_of (ns_N (NominationState_Handle node m s)) node = Some m"
    by (simp add: update_conv')
  then have "\<not> is_news node m (NominationState_Handle node m s)"
    by (simp add: is_news_def)
  then show ?thesis by (rule NominationState_Handle_stale)
qed




lemma nomination_run_append:
  "nomination_run (cs @ ds) s = nomination_run ds (nomination_run cs s)"
  by (induction cs arbitrary: s) simp_all

lemma run_nomination_of_b:
  "NominationState_Handle ''b'' nomination_of_b (NewNominationState ''a'' slice_ab)
     = nomination_after_b"
  by (simp add: NominationState_Handle_def NewNominationState_def nomination_of_b_def
      nomination_after_b_def Let_def HasSlotValue_def Equal_def MaybeAdvance_def
      BlockedBy_def MeetsQuorum_def quorum_closure.simps NominationState_QuorumSlice_def
      SatisfiedBy_def slice_ab_def)

lemma run_acceptance_of_b:
  "NominationState_Handle ''b'' acceptance_of_b (NewNominationState ''a'' slice_ab)
     = nomination_accepted_unvoted"
  by (simp add: NominationState_Handle_def NewNominationState_def acceptance_of_b_def
      nomination_accepted_unvoted_def Let_def HasSlotValue_def Equal_def MaybeAdvance_def
      BlockedBy_def MeetsQuorum_def quorum_closure.simps NominationState_QuorumSlice_def
      SatisfiedBy_def slice_ab_def slice_bc_def)

subsection \<open>When \<^verbatim>\<open>Handle\<close> keeps Y inside X\<close>











section \<open>The quorum predicate and the order of a map\<close>


text \<open>The algorithm decides what the spec defines: \<^verbatim>\<open>MeetsQuorum\<close> holds iff some set of
  nodes among \<open>S \<union> {v}\<close> contains \<open>v\<close> and satisfies the slice of each of its members.\<close>
lemma MeetsQuorum_iff_quorum:
  "MeetsQuorum lookup v S \<longleftrightarrow>
     (\<exists>Q. v \<in> set Q \<and> set Q \<subseteq> insert v (set S) \<and> (\<forall>u \<in> set Q. slice_ok lookup Q u))"
proof
  assume m: "MeetsQuorum lookup v S"
  let ?Q = "quorum_closure lookup (filter (\<lambda>u. lookup u \<noteq> None) (v # S))"
  from m have "v \<in> set ?Q" by (simp add: MeetsQuorum_def)
  moreover have "set ?Q \<subseteq> insert v (set S)"
    using quorum_closure_subset[of lookup "filter (\<lambda>u. lookup u \<noteq> None) (v # S)"] by auto
  moreover have "\<forall>u \<in> set ?Q. slice_ok lookup ?Q u"
    using quorum_closure_fixed by blast
  ultimately show "\<exists>Q. v \<in> set Q \<and> set Q \<subseteq> insert v (set S) \<and> (\<forall>u \<in> set Q. slice_ok lookup Q u)"
    by blast
next
  assume "\<exists>Q. v \<in> set Q \<and> set Q \<subseteq> insert v (set S) \<and> (\<forall>u \<in> set Q. slice_ok lookup Q u)"
  then obtain Q where v: "v \<in> set Q" and sub: "set Q \<subseteq> insert v (set S)"
    and ok: "\<forall>u \<in> set Q. slice_ok lookup Q u"
    by blast
  have known: "\<forall>u \<in> set Q. lookup u \<noteq> None"
    using ok by (auto simp: slice_ok_def split: option.splits)
  have "set Q \<subseteq> set (quorum_closure lookup (filter (\<lambda>u. lookup u \<noteq> None) (v # S)))"
  proof (rule quorum_closure_keeps)
    show "set Q \<subseteq> set (filter (\<lambda>u. lookup u \<noteq> None) (v # S))"
      using sub known by fastforce
  next
    fix u T
    assume "u \<in> set Q" and "set Q \<subseteq> set T"
    with ok show "slice_ok lookup T u"
      using slice_ok_mono by blast
  qed
  with v show "MeetsQuorum lookup v S"
    by (auto simp: MeetsQuorum_def)
qed

text \<open>Only the set of nodes matters, not the order in which a \<^verbatim>\<open>range\<close> over a map
  collected them.\<close>
lemma MeetsQuorum_cong: "set S = set T \<Longrightarrow> MeetsQuorum lookup v S = MeetsQuorum lookup v T"
  using MeetsQuorum_mono[of S T lookup v] MeetsQuorum_mono[of T S lookup v] by auto

lemma nomination_tally_sets:
  "set (fst (nomination_tally v N (votedOrAccepted, accepted)))
     = set votedOrAccepted
       \<union> {node. \<exists>m. (node, m) \<in> set N \<and> (HasSlotValue (nm_Y m) v \<or> HasSlotValue (nm_X m) v)}
   \<and> set (snd (nomination_tally v N (votedOrAccepted, accepted)))
     = set accepted \<union> {node. \<exists>m. (node, m) \<in> set N \<and> HasSlotValue (nm_Y m) v}"
  by (induction v N "(votedOrAccepted, accepted)" arbitrary: votedOrAccepted accepted
      rule: nomination_tally.induct) auto

lemma prepare_tally_sets:
  "set (fst (prepare_tally ops n x M (votedOrAccepted, accepted)))
     = set votedOrAccepted
       \<union> {node. \<exists>m. (node, m) \<in> set M \<and> (AcceptAsPrepared ops m n x \<or> VoteToPrepare ops m n x)}
   \<and> set (snd (prepare_tally ops n x M (votedOrAccepted, accepted)))
     = set accepted \<union> {node. \<exists>m. (node, m) \<in> set M \<and> AcceptAsPrepared ops m n x}"
  by (induction ops n x M "(votedOrAccepted, accepted)" arbitrary: votedOrAccepted accepted
      rule: prepare_tally.induct) auto

lemma commit_tally_sets:
  "set (fst (commit_tally ops n x M (votedOrAccepted, accepted)))
     = set votedOrAccepted
       \<union> {node. \<exists>m. (node, m) \<in> set M \<and> (AcceptAsCommitted ops m n x \<or> VoteToCommit ops m n x)}
   \<and> set (snd (commit_tally ops n x M (votedOrAccepted, accepted)))
     = set accepted \<union> {node. \<exists>m. (node, m) \<in> set M \<and> AcceptAsCommitted ops m n x}"
  by (induction ops n x M "(votedOrAccepted, accepted)" arbitrary: votedOrAccepted accepted
      rule: commit_tally.induct) auto

section \<open>The ballot state: what each operation leaves alone\<close>

lemma MaybeAcceptAsPrepared_frame:
  "MaybeAcceptAsPrepared ops n x s = Inr s' \<Longrightarrow>
   bs_phase s' = bs_phase s \<and> bs_z s' = bs_z s \<and> bs_M s' = bs_M s
   \<and> bs_publicKey s' = bs_publicKey s \<and> bs_D s' = bs_D s"
  by (auto simp: MaybeAcceptAsPrepared_def Let_def case_prod_beta split: if_splits option.splits)

text \<open>The abort inside \<^verbatim>\<open>MaybeAcceptAsPrepared\<close>: either \<open>b\<close>, \<open>c\<close> and \<open>h\<close> are as
  before, or the phase is Prepare and they are reset.\<close>
lemma MaybeAcceptAsPrepared_abort:
  "MaybeAcceptAsPrepared ops n x s = Inr s' \<Longrightarrow>
   (bs_b s' = bs_b s \<and> bs_cn s' = bs_cn s \<and> bs_hn s' = bs_hn s)
   \<or> (bs_phase s = Prepare \<and> bs_b s' = None \<and> bs_cn s' = 0 \<and> bs_hn s' = 0)"
  by (auto simp: MaybeAcceptAsPrepared_def Let_def case_prod_beta split: if_splits option.splits)

text \<open>The \<^verbatim>\<open>log.Fatal\<close> is dead code: the early return covers its condition.\<close>
lemma MaybeAcceptAsPrepared_returns:
  "\<exists>s'. MaybeAcceptAsPrepared ops n x s = Inr s'"
  by (auto simp: MaybeAcceptAsPrepared_def Let_def case_prod_beta split: if_splits option.splits)

lemma MaybeConfirmAsPrepared_frame:
  "bs_phase (MaybeConfirmAsPrepared ops n x s) = bs_phase s
   \<and> bs_p (MaybeConfirmAsPrepared ops n x s) = bs_p s
   \<and> bs_pPrime (MaybeConfirmAsPrepared ops n x s) = bs_pPrime s
   \<and> bs_M (MaybeConfirmAsPrepared ops n x s) = bs_M s
   \<and> bs_publicKey (MaybeConfirmAsPrepared ops n x s) = bs_publicKey s
   \<and> bs_D (MaybeConfirmAsPrepared ops n x s) = bs_D s"
  by (simp add: MaybeConfirmAsPrepared_def Let_def)

lemma MaybeConfirmAsPrepared_in_Prepare:
  "MaybeConfirmAsPrepared ops n x s \<noteq> s \<Longrightarrow> bs_phase s = Prepare"
  by (cases "bs_phase s = Prepare") (simp_all add: MaybeConfirmAsPrepared_def)

lemma MaybeAcceptAsCommitted_frame:
  "bs_p (MaybeAcceptAsCommitted ops n x s) = bs_p s
   \<and> bs_pPrime (MaybeAcceptAsCommitted ops n x s) = bs_pPrime s
   \<and> bs_M (MaybeAcceptAsCommitted ops n x s) = bs_M s
   \<and> bs_publicKey (MaybeAcceptAsCommitted ops n x s) = bs_publicKey s
   \<and> bs_D (MaybeAcceptAsCommitted ops n x s) = bs_D s"
  by (simp add: MaybeAcceptAsCommitted_def Let_def case_prod_beta)

lemma MaybeConfirmAsCommitted_frame:
  "bs_b (MaybeConfirmAsCommitted ops n x s) = bs_b s
   \<and> bs_z (MaybeConfirmAsCommitted ops n x s) = bs_z s
   \<and> bs_p (MaybeConfirmAsCommitted ops n x s) = bs_p s
   \<and> bs_pPrime (MaybeConfirmAsCommitted ops n x s) = bs_pPrime s
   \<and> bs_M (MaybeConfirmAsCommitted ops n x s) = bs_M s
   \<and> bs_publicKey (MaybeConfirmAsCommitted ops n x s) = bs_publicKey s
   \<and> bs_D (MaybeConfirmAsCommitted ops n x s) = bs_D s"
  by (simp add: MaybeConfirmAsCommitted_def Let_def)

lemma MaybeNextBallot_frame:
  "bs_phase (snd (MaybeNextBallot ops s)) = bs_phase s
   \<and> bs_p (snd (MaybeNextBallot ops s)) = bs_p s
   \<and> bs_pPrime (snd (MaybeNextBallot ops s)) = bs_pPrime s
   \<and> bs_cn (snd (MaybeNextBallot ops s)) = bs_cn s
   \<and> bs_hn (snd (MaybeNextBallot ops s)) = bs_hn s
   \<and> bs_z (snd (MaybeNextBallot ops s)) = bs_z s
   \<and> bs_M (snd (MaybeNextBallot ops s)) = bs_M s
   \<and> bs_publicKey (snd (MaybeNextBallot ops s)) = bs_publicKey s
   \<and> bs_D (snd (MaybeNextBallot ops s)) = bs_D s"
  by (simp add: MaybeNextBallot_def Let_def split: option.splits)

lemma MaybeAcceptAsCommitted_phase:
  "bs_phase (MaybeAcceptAsCommitted ops n x s) = bs_phase s
   \<or> (bs_phase s = Prepare \<and> bs_phase (MaybeAcceptAsCommitted ops n x s) = Confirm)"
  by (cases "bs_phase s")
     (auto simp: MaybeAcceptAsCommitted_def Let_def case_prod_beta split: if_splits option.splits)

lemma MaybeConfirmAsCommitted_phase:
  "bs_phase (MaybeConfirmAsCommitted ops n x s) = bs_phase s
   \<or> (bs_phase s = Confirm \<and> bs_phase (MaybeConfirmAsCommitted ops n x s) = Externalize)"
  by (auto simp: MaybeConfirmAsCommitted_def Let_def split: if_splits option.splits)

section \<open>Predicates kept by the operations are kept by every sequence of calls\<close>

lemma Investigate_closed:
  "op_closed ops P \<Longrightarrow> P s \<Longrightarrow> Investigate ops n x s = Inr s' \<Longrightarrow> P s'"
  unfolding op_closed_def Investigate_def
  by (auto split: sum.splits)

lemma investigate_range_closed:
  "op_closed ops P \<Longrightarrow> P s \<Longrightarrow> investigate_range ops fuel i hn x s = Some (Inr s') \<Longrightarrow> P s'"
proof (induction fuel arbitrary: i s)
  case 0
  then show ?case by (simp split: if_splits)
next
  case (Suc fuel)
  show ?case
  proof (cases "i \<le>s hn")
    case False
    with Suc.prems show ?thesis by simp
  next
    case True
    with Suc.prems(3) obtain s1 where
      1: "Investigate ops i x s = Inr s1" and
      2: "investigate_range ops fuel (i + 1) hn x s1 = Some (Inr s')"
      by (auto split: sum.splits)
    from Investigate_closed[OF Suc.prems(1,2) 1] have "P s1" .
    from Suc.IH[OF Suc.prems(1) this 2] show ?thesis .
  qed
qed

lemma investigate_message_closed:
  assumes c: "op_closed ops P" and p: "P s"
    and r: "investigate_message ops fuel message s = Some (Inr s')"
  shows "P s'"
proof (cases message)
  case (Prepare_Message m)
  with r obtain s1 s2 where
    1: "Investigate ops (pm_Bn m) (pm_Bx m) s = Inr s1" and
    2: "Investigate ops (pm_Pn m) (pm_Px m) s1 = Inr s2" and
    3: "Investigate ops (pm_Ppn m) (pm_Ppx m) s2 = Inr s'"
    by (auto split: sum.splits)
  from Investigate_closed[OF c p 1] have "P s1" .
  from Investigate_closed[OF c this 2] have "P s2" .
  from Investigate_closed[OF c this 3] show ?thesis .
next
  case (Confirm_Message m)
  with c p r show ?thesis by (auto intro: Investigate_closed)
next
  case (Externalize_Message m)
  with c p r show ?thesis by (auto intro: investigate_range_closed)
qed

lemma handle_loop_closed:
  "op_closed ops P \<Longrightarrow> P s \<Longrightarrow> handle_loop ops fuel message s = Some (Inr s') \<Longrightarrow> P s'"
proof (induction fuel arbitrary: s)
  case 0
  then show ?case by simp
next
  case (Suc fuel)
  from Suc.prems(3) obtain s1 where
    1: "investigate_message ops (Suc fuel) message s = Some (Inr s1)"
    by (auto split: option.splits sum.splits)
  from investigate_message_closed[OF Suc.prems(1,2) 1] have p1: "P s1" .
  then have p2: "P (snd (MaybeNextBallot ops s1))"
    using Suc.prems(1) by (simp add: op_closed_def)
  show ?case
  proof (cases "fst (MaybeNextBallot ops s1)")
    case True
    with Suc.prems(3) 1
    have "handle_loop ops fuel message (snd (MaybeNextBallot ops s1)) = Some (Inr s')"
      by (auto split: prod.splits bool.splits)
    from Suc.IH[OF Suc.prems(1) p2 this] show ?thesis .
  next
    case False
    with Suc.prems(3) 1 have "s' = snd (MaybeNextBallot ops s1)"
      by (auto split: prod.splits bool.splits)
    with p2 show ?thesis by simp
  qed
qed

lemma BallotState_Handle_cases:
  "BallotState_Handle ops fuel node message s = Some (Inr s') \<Longrightarrow>
     s' = s \<or> handle_loop ops fuel message (s\<lparr>bs_M := AList.update node message (bs_M s)\<rparr>)
               = Some (Inr s')"
  by (auto simp: BallotState_Handle_def split: option.splits if_splits)

lemma BallotState_Handle_closed:
  assumes c: "op_closed ops P" and st: "store_closed P" and p: "P s"
    and r: "BallotState_Handle ops fuel node message s = Some (Inr s')"
  shows "P s'"
proof -
  from st p have p': "P (s\<lparr>bs_M := AList.update node message (bs_M s)\<rparr>)"
    by (simp add: store_closed_def)
  from BallotState_Handle_cases[OF r] p handle_loop_closed[OF c p'] show "P s'" by blast
qed

lemma ballot_call_closed:
  assumes c: "op_closed ops P" and st: "store_closed P" and p: "P s"
    and r: "ballot_call ops fuel call s = Some (Inr s')"
  shows "P s'"
proof (cases call)
  case (Call_BallotHandle node message)
  with c st p r show ?thesis by (auto intro: BallotState_Handle_closed)
next
  case (Call_Investigate n x)
  with c p r show ?thesis by (auto intro: Investigate_closed)
qed (use c p r in \<open>auto simp: op_closed_def\<close>)

lemma ballot_run_closed:
  "op_closed ops P \<Longrightarrow> store_closed P \<Longrightarrow> P s
     \<Longrightarrow> ballot_run ops fuel calls s = Some (Inr s') \<Longrightarrow> P s'"
proof (induction calls arbitrary: s)
  case Nil
  then show ?case by simp
next
  case (Cons c cs)
  from Cons.prems(4) obtain s1 where
    1: "ballot_call ops fuel c s = Some (Inr s1)" and
    2: "ballot_run ops fuel cs s1 = Some (Inr s')"
    by (auto split: option.splits sum.splits)
  from ballot_call_closed[OF Cons.prems(1,2,3) 1] have "P s1" .
  from Cons.IH[OF Cons.prems(1,2) this 2] show ?case .
qed

lemma ballot_run_append:
  "ballot_run ops fuel (cs @ ds) s =
     (case ballot_run ops fuel cs s of
        None \<Rightarrow> None
      | Some (Inl e) \<Rightarrow> Some (Inl e)
      | Some (Inr s1) \<Rightarrow> ballot_run ops fuel ds s1)"
  by (induction cs arbitrary: s) (auto split: option.splits sum.splits)

section \<open>The predicates of the statements are kept\<close>

lemma op_closedI:
  assumes "\<And>s n x s'. P s \<Longrightarrow> MaybeAcceptAsPrepared ops n x s = Inr s' \<Longrightarrow> P s'"
    and "\<And>s n x. P s \<Longrightarrow> P (MaybeConfirmAsPrepared ops n x s)"
    and "\<And>s n x. P s \<Longrightarrow> P (MaybeAcceptAsCommitted ops n x s)"
    and "\<And>s n x. P s \<Longrightarrow> P (MaybeConfirmAsCommitted ops n x s)"
    and "\<And>s. P s \<Longrightarrow> P (snd (MaybeNextBallot ops s))"
  shows "op_closed ops P"
  unfolding op_closed_def using assms by blast

lemma op_closed_phase:
  "op_closed (ops :: 'v BallotMessage_methods) (\<lambda>s. k \<le> phase_rank (bs_phase s))"
proof (rule op_closedI)
  fix s s' :: "'v BallotState" and n x
  assume "k \<le> phase_rank (bs_phase s)" and "MaybeAcceptAsPrepared ops n x s = Inr s'"
  then show "k \<le> phase_rank (bs_phase s')"
    using MaybeAcceptAsPrepared_frame[of ops n x s s'] by simp
next
  fix s :: "'v BallotState" and n x
  assume "k \<le> phase_rank (bs_phase s)"
  then show "k \<le> phase_rank (bs_phase (MaybeConfirmAsPrepared ops n x s))"
    by (simp add: MaybeConfirmAsPrepared_frame)
next
  fix s :: "'v BallotState" and n x
  assume "k \<le> phase_rank (bs_phase s)"
  then show "k \<le> phase_rank (bs_phase (MaybeAcceptAsCommitted ops n x s))"
    using MaybeAcceptAsCommitted_phase[of ops n x s] by auto
next
  fix s :: "'v BallotState" and n x
  assume "k \<le> phase_rank (bs_phase s)"
  then show "k \<le> phase_rank (bs_phase (MaybeConfirmAsCommitted ops n x s))"
    using MaybeConfirmAsCommitted_phase[of ops n x s] by auto
next
  fix s :: "'v BallotState"
  assume "k \<le> phase_rank (bs_phase s)"
  then show "k \<le> phase_rank (bs_phase (snd (MaybeNextBallot ops s)))"
    by (simp add: MaybeNextBallot_frame)
qed

lemma op_closed_store: "op_closed ops (\<lambda>s. bs_M s = M)"
proof (rule op_closedI)
  fix s n x s'
  assume "bs_M s = M" and "MaybeAcceptAsPrepared ops n x s = Inr s'"
  then show "bs_M s' = M"
    using MaybeAcceptAsPrepared_frame[of ops n x s s'] by simp
qed (simp_all add: MaybeConfirmAsPrepared_frame MaybeAcceptAsCommitted_frame
       MaybeConfirmAsCommitted_frame MaybeNextBallot_frame)

lemma prepared_inv_frame:
  "prepared_inv s \<Longrightarrow> bs_p s' = bs_p s \<Longrightarrow> bs_pPrime s' = bs_pPrime s \<Longrightarrow> prepared_inv s'"
  by (simp add: prepared_inv_def split: option.splits)

lemma MaybeAcceptAsPrepared_prepared_inv:
  "prepared_inv s \<Longrightarrow> MaybeAcceptAsPrepared ops n x s = Inr s' \<Longrightarrow> prepared_inv s'"
  by (auto simp: MaybeAcceptAsPrepared_def prepared_inv_def Let_def case_prod_beta Equal_def
      split: if_splits option.splits)

lemma op_closed_prepared_inv: "op_closed ops prepared_inv"
proof (rule op_closedI)
  fix s n x s'
  assume "prepared_inv s" and "MaybeAcceptAsPrepared ops n x s = Inr s'"
  then show "prepared_inv s'" by (rule MaybeAcceptAsPrepared_prepared_inv)
qed (erule prepared_inv_frame;
     simp add: MaybeConfirmAsPrepared_frame MaybeAcceptAsCommitted_frame
       MaybeConfirmAsCommitted_frame MaybeNextBallot_frame)+

lemma prepared_nonzero_frame:
  "prepared_nonzero s \<Longrightarrow> bs_p s' = bs_p s \<Longrightarrow> bs_pPrime s' = bs_pPrime s
     \<Longrightarrow> prepared_nonzero s'"
  by (simp add: prepared_nonzero_def)

lemma MaybeAcceptAsPrepared_nonzero:
  "prepared_nonzero s \<Longrightarrow> MaybeAcceptAsPrepared ops n x s = Inr s' \<Longrightarrow> prepared_nonzero s'"
  by (auto simp: MaybeAcceptAsPrepared_def prepared_nonzero_def Let_def case_prod_beta
      split: if_splits option.splits)

lemma op_closed_prepared_nonzero: "op_closed ops prepared_nonzero"
proof (rule op_closedI)
  fix s n x s'
  assume "prepared_nonzero s" and "MaybeAcceptAsPrepared ops n x s = Inr s'"
  then show "prepared_nonzero s'" by (rule MaybeAcceptAsPrepared_nonzero)
qed (erule prepared_nonzero_frame;
     simp add: MaybeConfirmAsPrepared_frame MaybeAcceptAsCommitted_frame
       MaybeConfirmAsCommitted_frame MaybeNextBallot_frame)+

lemma MaybeAcceptAsPrepared_z_agrees:
  "z_agrees s \<Longrightarrow> MaybeAcceptAsPrepared ops n x s = Inr s' \<Longrightarrow> z_agrees s'"
  by (auto simp: MaybeAcceptAsPrepared_def z_agrees_def Let_def case_prod_beta
      split: if_splits option.splits)

lemma MaybeConfirmAsPrepared_z_agrees:
  "z_agrees s \<Longrightarrow> z_agrees (MaybeConfirmAsPrepared ops n x s)"
  by (auto simp: MaybeConfirmAsPrepared_def z_agrees_def Let_def Equal_def
      split: if_splits option.splits)

lemma MaybeAcceptAsCommitted_z_agrees:
  "z_agrees s \<Longrightarrow> z_agrees (MaybeAcceptAsCommitted ops n x s)"
  by (auto simp: MaybeAcceptAsCommitted_def z_agrees_def Let_def case_prod_beta
      split: if_splits option.splits)

lemma MaybeConfirmAsCommitted_z_agrees:
  "z_agrees s \<Longrightarrow> z_agrees (MaybeConfirmAsCommitted ops n x s)"
  by (simp add: z_agrees_def MaybeConfirmAsCommitted_frame split: option.splits)

lemma MaybeNextBallot_z_agrees:
  "z_agrees s \<Longrightarrow> z_agrees (snd (MaybeNextBallot ops s))"
  by (auto simp: MaybeNextBallot_def z_agrees_def Let_def split: if_splits option.splits)

lemma op_closed_z_agrees: "op_closed ops z_agrees"
  by (rule op_closedI)
     (simp_all add: MaybeAcceptAsPrepared_z_agrees MaybeConfirmAsPrepared_z_agrees
        MaybeAcceptAsCommitted_z_agrees MaybeConfirmAsCommitted_z_agrees
        MaybeNextBallot_z_agrees)

lemma store_closed_simple:
  "store_closed (\<lambda>s. k \<le> phase_rank (bs_phase s))"
  "store_closed prepared_inv" "store_closed prepared_nonzero" "store_closed z_agrees"
  by (simp_all add: store_closed_def prepared_inv_def prepared_nonzero_def z_agrees_def
      split: option.splits)

section \<open>Stale ballot messages\<close>

lemma BallotState_Handle_stored:
  assumes r: "BallotState_Handle ops fuel node message s = Some (Inr s')"
  shows "s' = s \<or> map_of (bs_M s') node = Some message"
proof -
  let ?s1 = "s\<lparr>bs_M := AList.update node message (bs_M s)\<rparr>"
  from BallotState_Handle_cases[OF r] show ?thesis
  proof
    assume "s' = s" then show ?thesis by simp
  next
    assume "handle_loop ops fuel message ?s1 = Some (Inr s')"
    from handle_loop_closed[OF op_closed_store[of ops "bs_M ?s1"] _ this]
    have "bs_M s' = AList.update node message (bs_M s)" by simp
    then show ?thesis by (simp add: update_conv')
  qed
qed

lemma BallotState_Handle_stale:
  "map_of (bs_M s) node = Some old \<Longrightarrow> 0 \<le>s Compare ops old message
     \<Longrightarrow> BallotState_Handle ops fuel node message s = Some (Inr s)"
  by (simp add: BallotState_Handle_def)

lemma BallotState_Handle_twice:
  assumes refl: "0 \<le>s Compare ops message message"
    and r: "BallotState_Handle ops fuel node message s = Some (Inr s')"
  shows "BallotState_Handle ops fuel node message s' = Some (Inr s')"
proof -
  from BallotState_Handle_stored[OF r] show ?thesis
  proof
    assume "s' = s" with r show ?thesis by simp
  next
    assume "map_of (bs_M s') node = Some message"
    from BallotState_Handle_stale[OF this refl] show ?thesis .
  qed
qed

text \<open>The stored messages stay an association list with distinct keys, as a Go map is.\<close>
lemma ballot_call_distinct:
  assumes d: "distinct (map fst (bs_M s))"
    and r: "ballot_call ops fuel call s = Some (Inr s')"
  shows "distinct (map fst (bs_M s'))"
proof (cases call)
  case (Call_BallotHandle node message)
  let ?s1 = "s\<lparr>bs_M := AList.update node message (bs_M s)\<rparr>"
  from Call_BallotHandle r
  have "BallotState_Handle ops fuel node message s = Some (Inr s')" by simp
  from BallotState_Handle_cases[OF this] show ?thesis
  proof
    assume "s' = s" with d show ?thesis by simp
  next
    assume "handle_loop ops fuel message ?s1 = Some (Inr s')"
    from handle_loop_closed[OF op_closed_store[of ops "bs_M ?s1"] _ this]
    have "bs_M s' = AList.update node message (bs_M s)" by simp
    with d show ?thesis by (simp add: distinct_update)
  qed
next
  case (Call_Investigate n x)
  with r have "Investigate ops n x s = Inr s'" by simp
  from Investigate_closed[OF op_closed_store[of ops "bs_M s"] _ this] d
  show ?thesis by simp
next
  case (Call_MaybeAcceptAsPrepared n x)
  with r d MaybeAcceptAsPrepared_frame[of ops n x s s'] show ?thesis by simp
next
  case (Call_MaybeConfirmAsPrepared n x)
  with r d show ?thesis by (auto simp: MaybeConfirmAsPrepared_frame)
next
  case (Call_MaybeAcceptAsCommitted n x)
  with r d show ?thesis by (auto simp: MaybeAcceptAsCommitted_frame)
next
  case (Call_MaybeConfirmAsCommitted n x)
  with r d show ?thesis by (auto simp: MaybeConfirmAsCommitted_frame)
next
  case Call_MaybeNextBallot
  with r d show ?thesis by (auto simp: MaybeNextBallot_frame)
qed

lemma ballot_run_distinct:
  "distinct (map fst (bs_M s)) \<Longrightarrow> ballot_run ops fuel calls s = Some (Inr s')
     \<Longrightarrow> distinct (map fst (bs_M s'))"
proof (induction calls arbitrary: s)
  case Nil
  then show ?case by simp
next
  case (Cons c cs)
  from Cons.prems(2) obtain s1 where
    1: "ballot_call ops fuel c s = Some (Inr s1)" and
    2: "ballot_run ops fuel cs s1 = Some (Inr s')"
    by (auto split: option.splits sum.splits)
  from ballot_call_distinct[OF Cons.prems(1) 1] have "distinct (map fst (bs_M s1))" .
  from Cons.IH[OF this 2] show ?case .
qed

section \<open>Fuel\<close>

text \<open>A call that returns with some fuel returns the same with more: the fuel bounds the
  number of iterations and is otherwise not observable.\<close>
lemma investigate_range_fuel:
  "investigate_range ops k i hn x s = Some r \<Longrightarrow> k \<le> k'
     \<Longrightarrow> investigate_range ops k' i hn x s = Some r"
proof (induction k arbitrary: k' i s)
  case 0
  then show ?case by (cases k') (auto split: if_splits)
next
  case (Suc k)
  from Suc.prems(2) obtain j where k': "k' = Suc j" and le: "k \<le> j"
    by (cases k') auto
  show ?case
  proof (cases "i \<le>s hn")
    case False
    with Suc.prems(1) k' show ?thesis by simp
  next
    case True
    show ?thesis
    proof (cases "Investigate ops i x s")
      case (Inl e)
      with True Suc.prems(1) k' show ?thesis by auto
    next
      case (Inr s1)
      with True Suc.prems(1) have "investigate_range ops k (i + 1) hn x s1 = Some r" by simp
      from Suc.IH[OF this le] True Inr k' show ?thesis by simp
    qed
  qed
qed

lemma investigate_message_fuel:
  "investigate_message ops k message s = Some r \<Longrightarrow> k \<le> k'
     \<Longrightarrow> investigate_message ops k' message s = Some r"
  by (cases message) (auto intro: investigate_range_fuel)

lemma handle_loop_fuel:
  "handle_loop ops k message s = Some r \<Longrightarrow> k \<le> k' \<Longrightarrow> handle_loop ops k' message s = Some r"
proof (induction k arbitrary: k' s)
  case 0
  then show ?case by simp
next
  case (Suc k)
  from Suc.prems(2) obtain j where k': "k' = Suc j" and le: "k \<le> j"
    by (cases k') auto
  from Suc.prems(1) obtain r1 where
    1: "investigate_message ops (Suc k) message s = Some r1"
    by (auto split: option.splits)
  from investigate_message_fuel[OF 1, of "Suc j"] le
  have 2: "investigate_message ops (Suc j) message s = Some r1" by simp
  show ?case
  proof (cases r1)
    case (Inl e)
    with 1 2 Suc.prems(1) k' show ?thesis by auto
  next
    case (Inr s1)
    show ?thesis
    proof (cases "fst (MaybeNextBallot ops s1)")
      case False
      with 1 2 Inr Suc.prems(1) k' show ?thesis
        by (auto split: prod.splits bool.splits)
    next
      case True
      with 1 Inr Suc.prems(1)
      have "handle_loop ops k message (snd (MaybeNextBallot ops s1)) = Some r"
        by (auto split: prod.splits bool.splits)
      from Suc.IH[OF this le] True 2 Inr k' show ?thesis
        by (auto split: prod.splits bool.splits)
    qed
  qed
qed

lemma BallotState_Handle_fuel:
  "BallotState_Handle ops k node message s = Some r \<Longrightarrow> k \<le> k'
     \<Longrightarrow> BallotState_Handle ops k' node message s = Some r"
  by (auto simp: BallotState_Handle_def split: option.splits if_splits intro: handle_loop_fuel)

text \<open>
  The fuel is needed: the outer loop of \<^verbatim>\<open>Handle\<close> does not end for a node in the
  Externalize phase whose slice names no member and asks for one (every set blocks such a
  slice), handling a confirm message for another value. Each iteration investigates to no
  effect and bumps the ballot number.
\<close>
lemma handle_loop_diverges:
  "bs_phase s = Externalize \<Longrightarrow> bs_b s = Some b \<Longrightarrow> bs_z s \<noteq> None
     \<Longrightarrow> ballot_x b \<noteq> cm_X m \<Longrightarrow> Members (bs_D s) = [] \<Longrightarrow> 0 <s Threshold (bs_D s)
     \<Longrightarrow> handle_loop ops k (Confirm_Message m) s = None"
proof (induction k arbitrary: s b)
  case 0
  then show ?case by simp
next
  case (Suc k)
  have inv: "Investigate ops (cm_Hn m) (cm_X m) s = Inr s"
    using Suc.prems(1,2,4)
    by (simp add: Investigate_def MaybeAcceptAsPrepared_def MaybeConfirmAsPrepared_def
        MaybeAcceptAsCommitted_def MaybeConfirmAsCommitted_def Equal_def)
  have blocked: "\<And>nodes. BlockedBy (bs_D s) nodes"
    using Suc.prems(5,6) by (simp add: BlockedBy_def word_sless_alt)
  have bump: "MaybeNextBallot ops s = (True, s\<lparr>bs_b := Some (b\<lparr>ballot_n := ballot_n b + 1\<rparr>)\<rparr>)"
    using Suc.prems(2,3) blocked by (auto simp: MaybeNextBallot_def Let_def)
  have "handle_loop ops k (Confirm_Message m) (s\<lparr>bs_b := Some (b\<lparr>ballot_n := ballot_n b + 1\<rparr>)\<rparr>)
          = None"
    using Suc.prems by (intro Suc.IH[of _ "b\<lparr>ballot_n := ballot_n b + 1\<rparr>"]) simp_all
  with inv bump show ?case by simp
qed

section \<open>No call stops with an error\<close>

text \<open>The only \<^verbatim>\<open>log.Fatal\<close> of the ballot state is dead code, so a call either returns
  or runs forever.\<close>
lemma Investigate_returns: "\<exists>s'. Investigate ops n x s = Inr s'"
  using MaybeAcceptAsPrepared_returns[of ops n x s] by (auto simp: Investigate_def)

lemma investigate_range_no_error:
  "investigate_range ops fuel i hn x s \<noteq> Some (Inl e)"
proof (induction fuel arbitrary: i s)
  case 0
  then show ?case by simp
next
  case (Suc fuel)
  from Investigate_returns[of ops i x s] obtain s1 where "Investigate ops i x s = Inr s1"
    by blast
  with Suc[of "i + 1" s1] show ?case by simp
qed

lemma investigate_message_no_error:
  "investigate_message ops fuel message s \<noteq> Some (Inl e)"
proof (cases message)
  case (Prepare_Message m)
  from Investigate_returns[of ops "pm_Bn m" "pm_Bx m" s] obtain s1 where
    1: "Investigate ops (pm_Bn m) (pm_Bx m) s = Inr s1" by blast
  from Investigate_returns[of ops "pm_Pn m" "pm_Px m" s1] obtain s2 where
    2: "Investigate ops (pm_Pn m) (pm_Px m) s1 = Inr s2" by blast
  from Investigate_returns[of ops "pm_Ppn m" "pm_Ppx m" s2] obtain s3 where
    3: "Investigate ops (pm_Ppn m) (pm_Ppx m) s2 = Inr s3" by blast
  from Prepare_Message 1 2 3 show ?thesis by simp
next
  case (Confirm_Message m)
  with Investigate_returns[of ops "cm_Hn m" "cm_X m" s] show ?thesis by auto
next
  case (Externalize_Message m)
  then show ?thesis by (simp add: investigate_range_no_error)
qed

lemma handle_loop_no_error: "handle_loop ops fuel message s \<noteq> Some (Inl e)"
proof (induction fuel arbitrary: s)
  case 0
  then show ?case by simp
next
  case (Suc fuel)
  show ?case
  proof (cases "investigate_message ops (Suc fuel) message s")
    case None
    then show ?thesis by simp
  next
    case (Some r)
    with investigate_message_no_error[of ops "Suc fuel" message s] obtain s1 where
      "r = Inr s1" by (cases r) auto
    with Some Suc[of "snd (MaybeNextBallot ops s1)"] show ?thesis
      by (auto split: prod.splits bool.splits)
  qed
qed

lemma ballot_call_no_error: "ballot_call ops fuel call s \<noteq> Some (Inl e)"
proof (cases call)
  case (Call_MaybeAcceptAsPrepared n x)
  with MaybeAcceptAsPrepared_returns[of ops n x s] show ?thesis by auto
next
  case (Call_Investigate n x)
  with Investigate_returns[of ops n x s] show ?thesis by auto
next
  case (Call_BallotHandle node message)
  then show ?thesis
    by (auto simp: BallotState_Handle_def handle_loop_no_error split: option.splits)
qed simp_all

lemma ballot_run_no_error: "ballot_run ops fuel calls s \<noteq> Some (Inl e)"
proof (induction calls arbitrary: s)
  case Nil
  then show ?case by simp
next
  case (Cons c cs)
  show ?case
  proof (cases "ballot_call ops fuel c s")
    case None
    then show ?thesis by simp
  next
    case (Some r)
    with ballot_call_no_error[of ops fuel c s] obtain s1 where "r = Inr s1" by (cases r) auto
    with Some Cons[of s1] show ?thesis by simp
  qed
qed

section \<open>Runs of the model on the sample inputs\<close>

lemma run_equal_numbers:
  "ballot_run sample_methods 0 [Call_MaybeAcceptAsPrepared 1 1, Call_MaybeAcceptAsPrepared 1 0]
     (NewBallotState ''a'' slice_a) = Some (Inr ballot_equal_numbers)"
  by (simp add: MaybeAcceptAsPrepared_def NewBallotState_def ballot_equal_numbers_def Let_def
      Equal_def BlockedBy_def MeetsQuorum_def quorum_closure.simps BallotState_QuorumSlice_def
      SatisfiedBy_def slice_a_def word_sle_eq)

lemmas sample_defs =
  sample_methods_def sample_AcceptAsPrepared_def sample_VoteToPrepare_def
  sample_AcceptAsCommitted_def sample_VoteToCommit_def sample_BallotNumber_def
  sample_QuorumSlice_def sample_Compare_def

lemmas ballot_defs =
  Investigate_def MaybeAcceptAsPrepared_def MaybeConfirmAsPrepared_def
  MaybeAcceptAsCommitted_def MaybeConfirmAsCommitted_def MaybeNextBallot_def gtecompat_def
  Let_def Equal_def BlockedBy_def MeetsQuorum_def quorum_closure.simps
  BallotState_QuorumSlice_def SatisfiedBy_def word_sle_eq word_sless_alt

lemma run_prepare_of_b:
  "BallotState_Handle sample_methods 1 ''b'' prepare_of_b (NewBallotState ''a'' slice_ab)
     = Some (Inr ballot_after_b)"
  by (simp add: BallotState_Handle_def ballot_defs sample_defs NewBallotState_def
      ballot_after_b_def prepare_of_b_def slice_ab_def)

lemma run_solo:
  "Investigate sample_methods 1 7 (NewBallotState ''a'' slice_a) = Inr ballot_solo_externalized"
  by (simp add: ballot_defs sample_defs NewBallotState_def ballot_solo_externalized_def
      slice_a_def)

lemma run_solo_accept:
  "MaybeAcceptAsPrepared sample_methods 1 7 (NewBallotState ''a'' slice_a)
     = Inr ((NewBallotState ''a'' slice_a)\<lparr>bs_p := Some \<lparr>ballot_n = 1, ballot_x = 7::nat\<rparr>\<rparr>)"
  by (simp add: ballot_defs sample_defs NewBallotState_def slice_a_def)

lemma run_solo_confirm:
  "MaybeConfirmAsPrepared sample_methods 1 7 (NewBallotState ''a'' slice_a)
     = (NewBallotState ''a'' slice_a)
         \<lparr>bs_b := Some \<lparr>ballot_n = 1, ballot_x = 7::nat\<rparr>, bs_hn := 1, bs_cn := 1, bs_z := Some 7\<rparr>"
  by (simp add: ballot_defs sample_defs NewBallotState_def slice_a_def)

lemma run_behind_b:
  "MaybeNextBallot sample_methods ballot_behind_b
     = (True, ballot_behind_b\<lparr>bs_b := Some \<lparr>ballot_n = 2, ballot_x = 7\<rparr>\<rparr>)"
  by (simp add: ballot_defs sample_defs ballot_behind_b_def slice_ab_def)

section \<open>Prepared ballots with equal numbers\<close>

text \<open>When \<^verbatim>\<open>MaybeAcceptAsPrepared\<close> accepts a ballot that has the number of \<open>p\<close> and
  another value, that ballot becomes \<open>p\<close> and the old \<open>p\<close> becomes \<open>p'\<close>.\<close>
lemma tie_is_last:
  assumes "bs_p s = Some q" and "ballot_n q = n" and "\<not> Equal (ballot_x q) x"
    and "MaybeAcceptAsPrepared ops n x s = Inr s1"
  shows "s1 = s \<or> (bs_p s1 = Some \<lparr>ballot_n = n, ballot_x = x\<rparr> \<and> bs_pPrime s1 = Some q)"
  using assms
  by (auto simp: MaybeAcceptAsPrepared_def Let_def case_prod_beta split: if_splits)

section \<open>The encoding of operations: the error paths and the round trip\<close>





text \<open>The round trip returns what the two \<^verbatim>\<open>Unmarshal\<close> calls make of the text that
  \<^verbatim>\<open>Marshal\<close> wrote.\<close>
lemma EncodeThenDecodeOperation_plumbing:
  "Marshal env \<lparr>do_T = OperationType env m, do_O = Pointer_to m\<rparr> = Inr bytes
     \<Longrightarrow> Unmarshal_partial env bytes = Inr pdo \<Longrightarrow> registry (pdo_T pdo) = Some opType
     \<Longrightarrow> Unmarshal_operation env opType (pdo_O pdo) = Inr (Pointer_to m')
     \<Longrightarrow> EncodeThenDecodeOperation env registry (Pointer_to m) = Inr (Pointer_to m')"
  by (simp add: EncodeThenDecodeOperation_def EncodeOperation_def DecodeOperation_def)



lemma coerce_utf8_Testing: "coerce_utf8 ''Testing'' = ''Testing''"
  by (simp add: coerce_utf8_def)

lemma go_int_round_trip:
  "- (2 ^ 63) \<le> sint (w :: go_int) \<and> sint w < 2 ^ 63 \<and> word_of_int (sint w) = w"
  using sint_ge[of w] sint_lt[of w] by simp

lemma testing_round_trip:
  "EncodeThenDecodeOperation testing_env testing_registry (Pointer_to t)
     = Inr (Pointer_to (t\<lparr>Signer := coerce_utf8 (Signer t)\<rparr>))"
proof -
  let ?bytes = "JObject [(''T'', JString ''Testing''), (''O'', json_of_TestingOperation t)]"
  have "Marshal testing_env \<lparr>do_T = OperationType testing_env t, do_O = Pointer_to t\<rparr>
          = Inr ?bytes"
    by (simp add: testing_env_def testing_Marshal_def TestingOperation_OperationType_def
        coerce_utf8_Testing)
  moreover have "Unmarshal_partial testing_env ?bytes
      = Inr \<lparr>pdo_T = ''Testing'', pdo_O = Some (json_of_TestingOperation t)\<rparr>"
    by (simp add: testing_env_def testing_Unmarshal_partial_def member_def)
  moreover have "testing_registry ''Testing'' = Some TestingOperation_struct"
    by (simp add: testing_registry_def)
  moreover have "Unmarshal_operation testing_env TestingOperation_struct
        (Some (json_of_TestingOperation t))
      = Inr (Pointer_to (t\<lparr>Signer := coerce_utf8 (Signer t)\<rparr>))"
    using go_int_round_trip[of "Number t"]
    by (simp add: testing_env_def testing_Unmarshal_operation_def json_of_TestingOperation_def
        member_def)
  ultimately show ?thesis
    by (intro EncodeThenDecodeOperation_plumbing[where pdo =
          "\<lparr>pdo_T = ''Testing'', pdo_O = Some (json_of_TestingOperation t)\<rparr>"]) simp_all
qed

text \<open>The \<^verbatim>\<open>init\<close> of operation_test.go, on the empty map.\<close>
lemma run_init:
  "RegisterOperationType testing_env Map.empty \<lparr>Number = 0, Signer = []\<rparr> = Inr testing_registry"
  by (simp add: RegisterOperationType_def testing_env_def testing_registry_def
      TestingOperation_OperationType_def)

text \<open>A second registration stops the process.\<close>
lemma run_init_twice:
  "RegisterOperationType testing_env testing_registry \<lparr>Number = 0, Signer = []\<rparr>
     = Inl (LogFatal ''operation type registered multiple times: Testing'')"
  by (simp add: RegisterOperationType_def testing_env_def testing_registry_def
      TestingOperation_OperationType_def)



text \<open>\<^verbatim>\<open>TestOperationEncoding\<close>: the operation with the number 5 comes back.\<close>
lemma run_TestOperationEncoding:
  "EncodeThenDecodeOperation testing_env testing_registry
     (Pointer_to \<lparr>Number = 5, Signer = []\<rparr>) = Inr (Pointer_to \<lparr>Number = 5, Signer = []\<rparr>)"
  by (simp add: testing_round_trip coerce_utf8_def)



section \<open>The claims\<close>




text \<open>
  C2. \<^verbatim>\<open>NewStateBuilder\<close> leaves \<^verbatim>\<open>bState\<close> nil and nothing in scp.go allocates it, so
  the first \<^verbatim>\<open>OutgoingMessages()\<close> on a new builder does not return: it stops in
  \<^verbatim>\<open>sb.bState.HasMessage()\<close> with a nil dereference.
\<close>
theorem OutgoingMessages_new_builder_fails:
  "OutgoingMessages MakeSlotValue zeroValue stamp
     (NewStateBuilder publicKey members threshold now) = Inl NilDereference"
  by (simp add: OutgoingMessages_def NewStateBuilder_def Let_def)

text \<open>With a ballot state that has no ballot yet, the same call returns the nomination
  message alone.\<close>
lemma OutgoingMessages_with_ballot_state:
  "OutgoingMessages MakeSlotValue zeroValue stamp
     ((NewStateBuilder publicKey members threshold now)
        \<lparr>sb_bState := Some (NewBallotState publicKey qs)\<rparr>)
   = Inr ([Nomination_Message
            \<lparr>nm_I = 1,
             nm_X = [MakeSlotValue (''this is '' @ publicKey @ '' at '' @ stamp)],
             nm_Y = [], nm_D = \<lparr>Members = members, Threshold = threshold\<rparr>\<rparr>],
          (NewStateBuilder publicKey members threshold now)
            \<lparr>sb_nState := Some (SetDefault
                (MakeSlotValue (''this is '' @ publicKey @ '' at '' @ stamp))
                (NewNominationState publicKey \<lparr>Members = members, Threshold = threshold\<rparr>)),
             sb_bState := Some (NewBallotState publicKey qs)\<rparr>)"
  by (simp add: OutgoingMessages_def NewStateBuilder_def Let_def HasNomination_def
      NewNominationState_def SetDefault_def HasMessage_def NewBallotState_def)

text \<open>A ballot message handed to a new builder meets the same nil pointer.\<close>
lemma StateBuilder_Handle_new_builder_fails:
  "StateBuilder_Handle ops fuel sender (Ballot_Message m)
     (NewStateBuilder publicKey members threshold now) = Some (Inl NilDereference)"
  by (simp add: StateBuilder_Handle_def NewStateBuilder_def Let_def)

text \<open>
  C3. Over every sequence of calls that returns, \<^verbatim>\<open>Handle\<close> calls among them, the phase
  does not move backward. Each operation moves it by at most one step: from Prepare to Confirm
  in \<^verbatim>\<open>MaybeAcceptAsCommitted\<close>, from Confirm to Externalize in
  \<^verbatim>\<open>MaybeConfirmAsCommitted\<close>. \<^verbatim>\<open>MaybeAcceptAsPrepared\<close> and
  \<^verbatim>\<open>MaybeConfirmAsPrepared\<close> leave the phase as it is. When
  \<^verbatim>\<open>MaybeAcceptAsPrepared\<close> aborts, the phase is Prepare, \<open>b\<close> becomes nil and \<open>c\<close> and
  \<open>h\<close> become 0; besides that the call writes \<open>p\<close> and \<open>p'\<close> only.
  \<^verbatim>\<open>MaybeConfirmAsPrepared\<close> changes the state in the Prepare phase only, and
  writes \<open>b\<close>, \<open>c\<close>, \<open>h\<close> and \<open>z\<close> only.
\<close>
theorem phase_only_advances:
  "(ballot_run ops fuel calls s = Some (Inr s') \<longrightarrow>
      phase_rank (bs_phase s) \<le> phase_rank (bs_phase s'))
   \<and> (bs_phase (MaybeAcceptAsCommitted ops n x s) = bs_phase s
        \<or> (bs_phase s = Prepare \<and> bs_phase (MaybeAcceptAsCommitted ops n x s) = Confirm))
   \<and> (bs_phase (MaybeConfirmAsCommitted ops n x s) = bs_phase s
        \<or> (bs_phase s = Confirm \<and> bs_phase (MaybeConfirmAsCommitted ops n x s) = Externalize))
   \<and> bs_phase (snd (MaybeNextBallot ops s)) = bs_phase s
   \<and> bs_phase (MaybeConfirmAsPrepared ops n x s) = bs_phase s
   \<and> bs_p (MaybeConfirmAsPrepared ops n x s) = bs_p s
   \<and> bs_pPrime (MaybeConfirmAsPrepared ops n x s) = bs_pPrime s
   \<and> bs_M (MaybeConfirmAsPrepared ops n x s) = bs_M s
   \<and> (MaybeConfirmAsPrepared ops n x s \<noteq> s \<longrightarrow> bs_phase s = Prepare)
   \<and> (MaybeAcceptAsPrepared ops n x s = Inr s1 \<longrightarrow>
        bs_phase s1 = bs_phase s \<and> bs_z s1 = bs_z s \<and> bs_M s1 = bs_M s
        \<and> ((bs_b s1 = bs_b s \<and> bs_cn s1 = bs_cn s \<and> bs_hn s1 = bs_hn s)
            \<or> (bs_phase s = Prepare \<and> bs_b s1 = None \<and> bs_cn s1 = 0 \<and> bs_hn s1 = 0)))"
proof -
  have "ballot_run ops fuel calls s = Some (Inr s') \<longrightarrow>
      phase_rank (bs_phase s) \<le> phase_rank (bs_phase s')"
    using ballot_run_closed[OF op_closed_phase store_closed_simple(1),
        of "phase_rank (bs_phase s)" s ops fuel calls s']
    by simp
  moreover have "MaybeAcceptAsPrepared ops n x s = Inr s1 \<longrightarrow>
        bs_phase s1 = bs_phase s \<and> bs_z s1 = bs_z s \<and> bs_M s1 = bs_M s
        \<and> ((bs_b s1 = bs_b s \<and> bs_cn s1 = bs_cn s \<and> bs_hn s1 = bs_hn s)
            \<or> (bs_phase s = Prepare \<and> bs_b s1 = None \<and> bs_cn s1 = 0 \<and> bs_hn s1 = 0))"
    using MaybeAcceptAsPrepared_frame[of ops n x s s1] MaybeAcceptAsPrepared_abort[of ops n x s s1]
    by blast
  ultimately show ?thesis
    using MaybeAcceptAsCommitted_phase[of ops n x s] MaybeConfirmAsCommitted_phase[of ops n x s]
      MaybeNextBallot_frame[of ops s] MaybeConfirmAsPrepared_frame[of ops n x s]
      MaybeConfirmAsPrepared_in_Prepare[of ops n x s]
    by blast
qed

theorem phase_only_advances_witness:
  "ballot_run sample_methods 0 [Call_Investigate 1 7] (NewBallotState ''a'' slice_a)
     = Some (Inr ballot_solo_externalized)
   \<and> phase_rank (bs_phase (NewBallotState ''a'' slice_a :: nat BallotState))
       \<le> phase_rank (bs_phase ballot_solo_externalized)
   \<and> MaybeConfirmAsPrepared sample_methods 1 (7::nat) (NewBallotState ''a'' slice_a)
       \<noteq> NewBallotState ''a'' slice_a
   \<and> bs_phase (NewBallotState ''a'' slice_a :: nat BallotState) = Prepare
   \<and> MaybeAcceptAsPrepared sample_methods 1 (7::nat) (NewBallotState ''a'' slice_a)
       = Inr ((NewBallotState ''a'' slice_a)\<lparr>bs_p := Some \<lparr>ballot_n = 1, ballot_x = 7\<rparr>\<rparr>)
   \<and> bs_phase ((NewBallotState ''a'' slice_a :: nat BallotState)
                  \<lparr>bs_p := Some \<lparr>ballot_n = 1, ballot_x = 7\<rparr>\<rparr>) = Prepare"
proof -
  have run: "ballot_run sample_methods 0 [Call_Investigate 1 7] (NewBallotState ''a'' slice_a)
     = Some (Inr ballot_solo_externalized)"
    by (simp add: run_solo)
  have changed: "MaybeConfirmAsPrepared sample_methods 1 7 (NewBallotState ''a'' slice_a)
       \<noteq> (NewBallotState ''a'' slice_a :: nat BallotState)"
    by (simp add: run_solo_confirm) (simp add: NewBallotState_def)
  from phase_only_advances[of sample_methods 0 "[Call_Investigate 1 7]"
      "NewBallotState ''a'' slice_a" ballot_solo_externalized 1 7
      "(NewBallotState ''a'' slice_a)\<lparr>bs_p := Some \<lparr>ballot_n = 1, ballot_x = 7\<rparr>\<rparr>"]
    run changed run_solo_accept
  have rank: "phase_rank (bs_phase (NewBallotState ''a'' slice_a :: nat BallotState))
       \<le> phase_rank (bs_phase ballot_solo_externalized)"
    and before: "bs_phase (NewBallotState ''a'' slice_a :: nat BallotState) = Prepare"
    and same: "bs_phase ((NewBallotState ''a'' slice_a :: nat BallotState)
                  \<lparr>bs_p := Some \<lparr>ballot_n = 1, ballot_x = 7\<rparr>\<rparr>)
               = bs_phase (NewBallotState ''a'' slice_a :: nat BallotState)"
    by blast+
  from same before
  have "bs_phase ((NewBallotState ''a'' slice_a :: nat BallotState)
                  \<lparr>bs_p := Some \<lparr>ballot_n = 1, ballot_x = 7\<rparr>\<rparr>) = Prepare"
    by (rule trans)
  with rank before run changed run_solo_accept show ?thesis by blast
qed

text \<open>
  C4 (as amended). In every state reached from a new ballot state by calls that return,
  whenever \<open>p\<close> and \<open>p'\<close> are both set their values differ and the number of \<open>p\<close> is at
  least the number of \<open>p'\<close>; \<open>p'\<close> is never set while \<open>p\<close> is nil. The code compares
  numbers only, never values.
\<close>
theorem prepared_ballots_incompatible:
  "prepared_inv (NewBallotState publicKey qs :: 'v BallotState)
   \<and> (prepared_inv (s :: 'v BallotState) \<and> ballot_run ops fuel calls s = Some (Inr s') \<longrightarrow> prepared_inv s')
   \<and> (prepared_inv s \<and> bs_p s = Some p \<and> bs_pPrime s = Some pp \<longrightarrow>
        ballot_x p \<noteq> ballot_x pp \<and> ballot_n pp \<le>s ballot_n p)
   \<and> (prepared_inv s \<and> bs_pPrime s \<noteq> None \<longrightarrow> bs_p s \<noteq> None)"
proof -
  have "prepared_inv (NewBallotState publicKey qs :: 'v BallotState)"
    by (simp add: prepared_inv_def NewBallotState_def)
  moreover have "prepared_inv s \<and> ballot_run ops fuel calls s = Some (Inr s') \<longrightarrow> prepared_inv s'"
    using ballot_run_closed[OF op_closed_prepared_inv store_closed_simple(2)] by blast
  moreover have "prepared_inv s \<and> bs_p s = Some p \<and> bs_pPrime s = Some pp \<longrightarrow>
        ballot_x p \<noteq> ballot_x pp \<and> ballot_n pp \<le>s ballot_n p"
    by (auto simp: prepared_inv_def Equal_def split: option.splits)
  moreover have "prepared_inv s \<and> bs_pPrime s \<noteq> None \<longrightarrow> bs_p s \<noteq> None"
    by (auto simp: prepared_inv_def split: option.splits)
  ultimately show ?thesis by blast
qed

theorem prepared_ballots_incompatible_witness:
  "prepared_inv (NewBallotState ''a'' slice_a :: nat BallotState)
   \<and> ballot_run sample_methods 0
       [Call_MaybeAcceptAsPrepared 1 1, Call_MaybeAcceptAsPrepared 1 0]
       (NewBallotState ''a'' slice_a) = Some (Inr ballot_equal_numbers)
   \<and> prepared_inv ballot_equal_numbers
   \<and> bs_p ballot_equal_numbers = Some \<lparr>ballot_n = 1, ballot_x = 0\<rparr>
   \<and> bs_pPrime ballot_equal_numbers = Some \<lparr>ballot_n = 1, ballot_x = 1\<rparr>
   \<and> (0::nat) \<noteq> 1 \<and> (1::go_int) \<le>s 1"
proof -
  note new = prepared_ballots_incompatible[of "''a''" slice_a "NewBallotState ''a'' slice_a"
      sample_methods 0 "[Call_MaybeAcceptAsPrepared 1 1, Call_MaybeAcceptAsPrepared 1 0]"
      ballot_equal_numbers]
  from new run_equal_numbers have inv: "prepared_inv ballot_equal_numbers" by blast
  have p: "bs_p ballot_equal_numbers = Some \<lparr>ballot_n = 1, ballot_x = 0\<rparr>"
    and pp: "bs_pPrime ballot_equal_numbers = Some \<lparr>ballot_n = 1, ballot_x = 1\<rparr>"
    by (simp_all add: ballot_equal_numbers_def)
  from prepared_ballots_incompatible[of "''a''" slice_a ballot_equal_numbers
      sample_methods 0 "[]" ballot_equal_numbers
      "\<lparr>ballot_n = 1, ballot_x = 0\<rparr>" "\<lparr>ballot_n = 1, ballot_x = 1\<rparr>"] inv p pp
  have "(0::nat) \<noteq> 1 \<and> (1::go_int) \<le>s 1" by simp
  with new run_equal_numbers inv p pp show ?thesis by blast
qed

text \<open>
  C4 (as stated) fails: a node that is its own quorum accepts \<open>(1, 1)\<close> as prepared and
  then \<open>(1, 0)\<close>. The second ballot has the same number, so it becomes \<open>p\<close> and the first
  becomes \<open>p'\<close>: \<open>p' = (1, 1)\<close> is not below \<open>p = (1, 0)\<close> in the lexicographic order.
\<close>
theorem prepared_order_counterexample:
  "ballot_run sample_methods 0
     [Call_MaybeAcceptAsPrepared 1 1, Call_MaybeAcceptAsPrepared 1 0]
     (NewBallotState ''a'' slice_a) = Some (Inr ballot_equal_numbers)
   \<and> bs_p ballot_equal_numbers = Some \<lparr>ballot_n = 1, ballot_x = 0\<rparr>
   \<and> bs_pPrime ballot_equal_numbers = Some \<lparr>ballot_n = 1, ballot_x = 1\<rparr>
   \<and> \<not> ballot_less \<lparr>ballot_n = 1, ballot_x = 1 :: nat\<rparr> \<lparr>ballot_n = 1, ballot_x = 0\<rparr>"
proof (intro conjI)
  show "ballot_run sample_methods 0
     [Call_MaybeAcceptAsPrepared 1 1, Call_MaybeAcceptAsPrepared 1 0]
     (NewBallotState ''a'' slice_a) = Some (Inr ballot_equal_numbers)"
    by (rule run_equal_numbers)
qed (simp_all add: ballot_equal_numbers_def ballot_less_def)

text \<open>
  C5. \<^verbatim>\<open>NominationState.Handle\<close> returns the state unchanged when the message lists
  fewer X values or fewer Y values than the stored one, or as many of both (the lengths are 0
  when nothing is stored). \<^verbatim>\<open>BallotState.Handle\<close> returns the state unchanged, without
  entering its loop, when a message is stored for the peer and \<^verbatim>\<open>Compare\<close> of the stored
  and the incoming one is not negative. So handling the last message of a sequence once more
  gives the same result; for ballot messages this uses that \<^verbatim>\<open>Compare\<close> of a message
  with itself is not negative.
\<close>
theorem stale_messages_ignored:
  "(map_of (ns_N s) node = Some old
      \<and> (length (nm_X m) < length (nm_X old) \<or> length (nm_Y m) < length (nm_Y old)
          \<or> (length (nm_X m) = length (nm_X old) \<and> length (nm_Y m) = length (nm_Y old)))
      \<longrightarrow> NominationState_Handle node m s = s)
   \<and> (map_of (ns_N s) node = None \<and> nm_X m = [] \<and> nm_Y m = []
        \<longrightarrow> NominationState_Handle node m s = s)
   \<and> (map_of (bs_M t) peer = Some stored \<and> 0 \<le>s Compare ops stored message
        \<longrightarrow> BallotState_Handle ops fuel peer message t = Some (Inr t))
   \<and> nomination_run (calls @ [Call_Handle node m, Call_Handle node m]) s
       = nomination_run (calls @ [Call_Handle node m]) s
   \<and> (0 \<le>s Compare ops message message
        \<longrightarrow> ballot_run ops fuel
              (bcalls @ [Call_BallotHandle peer message, Call_BallotHandle peer message]) t
            = ballot_run ops fuel (bcalls @ [Call_BallotHandle peer message]) t)"
proof (intro conjI impI)
  assume "map_of (ns_N s) node = Some old
      \<and> (length (nm_X m) < length (nm_X old) \<or> length (nm_Y m) < length (nm_Y old)
          \<or> (length (nm_X m) = length (nm_X old) \<and> length (nm_Y m) = length (nm_Y old)))"
  then have "\<not> is_news node m s" by (auto simp: is_news_def)
  then show "NominationState_Handle node m s = s" by (rule NominationState_Handle_stale)
next
  assume "map_of (ns_N s) node = None \<and> nm_X m = [] \<and> nm_Y m = []"
  then have "\<not> is_news node m s" by (auto simp: is_news_def)
  then show "NominationState_Handle node m s = s" by (rule NominationState_Handle_stale)
next
  assume "map_of (bs_M t) peer = Some stored \<and> 0 \<le>s Compare ops stored message"
  then show "BallotState_Handle ops fuel peer message t = Some (Inr t)"
    by (simp add: BallotState_Handle_stale)
next
  show "nomination_run (calls @ [Call_Handle node m, Call_Handle node m]) s
       = nomination_run (calls @ [Call_Handle node m]) s"
    by (simp add: nomination_run_append NominationState_Handle_twice)
next
  assume refl: "0 \<le>s Compare ops message message"
  show "ballot_run ops fuel
          (bcalls @ [Call_BallotHandle peer message, Call_BallotHandle peer message]) t
        = ballot_run ops fuel (bcalls @ [Call_BallotHandle peer message]) t"
  proof (cases "ballot_run ops fuel bcalls t")
    case None
    then show ?thesis by (simp add: ballot_run_append)
  next
    case (Some r)
    show ?thesis
    proof (cases r)
      case (Inl e)
      with Some show ?thesis by (simp add: ballot_run_append)
    next
      case (Inr t1)
      show ?thesis
      proof (cases "BallotState_Handle ops fuel peer message t1")
        case None
        with Some Inr show ?thesis by (simp add: ballot_run_append)
      next
        case h: (Some r1)
        show ?thesis
        proof (cases r1)
          case (Inl e)
          with Some Inr h show ?thesis by (simp add: ballot_run_append)
        next
          case (Inr t2)
          with h have "BallotState_Handle ops fuel peer message t1 = Some (Inr t2)" by simp
          from BallotState_Handle_twice[OF refl this] this Some \<open>r = Inr t1\<close>
          show ?thesis by (simp add: ballot_run_append)
        qed
      qed
    qed
  qed
qed

theorem stale_messages_ignored_witness:
  "map_of (ns_N nomination_after_b) ''b'' = Some nomination_of_b
   \<and> length (nm_X nomination_of_b) = length (nm_X nomination_of_b)
   \<and> length (nm_Y nomination_of_b) = length (nm_Y nomination_of_b)
   \<and> NominationState_Handle ''b'' nomination_of_b nomination_after_b = nomination_after_b
   \<and> map_of (bs_M ballot_after_b) ''b'' = Some prepare_of_b
   \<and> 0 \<le>s Compare sample_methods prepare_of_b prepare_of_b
   \<and> BallotState_Handle sample_methods 1 ''b'' prepare_of_b ballot_after_b
       = Some (Inr ballot_after_b)
   \<and> ballot_run sample_methods 1
       [Call_BallotHandle ''b'' prepare_of_b, Call_BallotHandle ''b'' prepare_of_b]
       (NewBallotState ''a'' slice_ab)
     = ballot_run sample_methods 1 [Call_BallotHandle ''b'' prepare_of_b]
         (NewBallotState ''a'' slice_ab)"
proof -
  have n: "map_of (ns_N nomination_after_b) ''b'' = Some nomination_of_b"
    by (simp add: nomination_after_b_def)
  have b: "map_of (bs_M ballot_after_b) ''b'' = Some prepare_of_b"
    by (simp add: ballot_after_b_def)
  have c: "0 \<le>s Compare sample_methods prepare_of_b prepare_of_b"
    by (simp add: sample_methods_def sample_Compare_def)
  from stale_messages_ignored[of nomination_after_b "''b''" nomination_of_b nomination_of_b
      ballot_after_b "''b''" prepare_of_b sample_methods prepare_of_b 1 "[]"] n b c
  have "NominationState_Handle ''b'' nomination_of_b nomination_after_b = nomination_after_b"
    and "BallotState_Handle sample_methods 1 ''b'' prepare_of_b ballot_after_b
       = Some (Inr ballot_after_b)"
    by blast+
  moreover
  from stale_messages_ignored[of nomination_after_b "''b''" nomination_of_b nomination_of_b
      "NewBallotState ''a'' slice_ab" "''b''" prepare_of_b sample_methods prepare_of_b 1
      "[]" "[]"] c
  have "ballot_run sample_methods 1
       [Call_BallotHandle ''b'' prepare_of_b, Call_BallotHandle ''b'' prepare_of_b]
       (NewBallotState ''a'' slice_ab)
     = ballot_run sample_methods 1 [Call_BallotHandle ''b'' prepare_of_b]
         (NewBallotState ''a'' slice_ab)"
    by simp
  ultimately show ?thesis using n b c by simp
qed

text \<open>
  C6. A new ballot state has no \<open>b\<close>. In every state reached from a state in which \<open>z\<close>
  agrees with \<open>b.x\<close> by calls that return (each of the five operations, \<^verbatim>\<open>Investigate\<close>
  and \<^verbatim>\<open>Handle\<close> is such a call), \<open>z\<close> is set to \<open>b.x\<close> whenever \<open>b\<close> is not nil.
\<close>
theorem z_agrees_with_b:
  "z_agrees (NewBallotState publicKey qs :: 'v BallotState)
   \<and> (z_agrees (s :: 'v BallotState) \<and> ballot_run ops fuel calls s = Some (Inr s') \<longrightarrow> z_agrees s')
   \<and> (z_agrees s \<and> bs_b s = Some b \<longrightarrow> bs_z s = Some (ballot_x b))"
proof -
  have "z_agrees (NewBallotState publicKey qs :: 'v BallotState)"
    by (simp add: z_agrees_def NewBallotState_def)
  moreover have "z_agrees s \<and> ballot_run ops fuel calls s = Some (Inr s') \<longrightarrow> z_agrees s'"
    using ballot_run_closed[OF op_closed_z_agrees store_closed_simple(4)] by blast
  moreover have "z_agrees s \<and> bs_b s = Some b \<longrightarrow> bs_z s = Some (ballot_x b)"
    by (auto simp: z_agrees_def)
  ultimately show ?thesis by blast
qed

theorem z_agrees_with_b_witness:
  "z_agrees (NewBallotState ''a'' slice_ab :: nat BallotState)
   \<and> ballot_run sample_methods 1 [Call_BallotHandle ''b'' prepare_of_b]
       (NewBallotState ''a'' slice_ab) = Some (Inr ballot_after_b)
   \<and> z_agrees ballot_after_b
   \<and> bs_b ballot_after_b = Some \<lparr>ballot_n = 1, ballot_x = 7\<rparr>
   \<and> bs_z ballot_after_b = Some 7"
proof -
  have run: "ballot_run sample_methods 1 [Call_BallotHandle ''b'' prepare_of_b]
       (NewBallotState ''a'' slice_ab) = Some (Inr ballot_after_b)"
    using run_prepare_of_b by simp
  note new = z_agrees_with_b[of "''a''" slice_ab "NewBallotState ''a'' slice_ab"
      sample_methods 1 "[Call_BallotHandle ''b'' prepare_of_b]" ballot_after_b]
  from new run have z: "z_agrees ballot_after_b" by blast
  have b: "bs_b ballot_after_b = Some \<lparr>ballot_n = 1, ballot_x = 7\<rparr>"
    by (simp add: ballot_after_b_def)
  from z_agrees_with_b[of "''a''" slice_ab ballot_after_b sample_methods 1 "[]" ballot_after_b
      "\<lparr>ballot_n = 1, ballot_x = 7\<rparr>"] z b
  have "bs_z ballot_after_b = Some 7" by simp
  with new run z b show ?thesis by blast
qed

text \<open>
  C7. \<^verbatim>\<open>PredictValue\<close> does not fail exactly when \<^verbatim>\<open>HasNomination\<close> is false, as the
  comment above it and the text of its panic say it does. Node a, with the two-out-of-two
  slice of a and b, handles the message in which b has accepted the value 5: X is empty, so
  \<^verbatim>\<open>HasNomination\<close> is false, but Y holds 5 and \<^verbatim>\<open>PredictValue\<close> returns it.
\<close>
theorem PredictValue_returns_without_nomination:
  "NominationState_Handle ''b'' acceptance_of_b (NewNominationState ''a'' slice_ab)
     = nomination_accepted_unvoted
   \<and> \<not> HasNomination nomination_accepted_unvoted
   \<and> PredictValue sum_list nomination_accepted_unvoted = Inr 5"
proof (intro conjI)
  show "NominationState_Handle ''b'' acceptance_of_b (NewNominationState ''a'' slice_ab)
     = nomination_accepted_unvoted"
    by (rule run_acceptance_of_b)
qed (simp_all add: nomination_accepted_unvoted_def HasNomination_def PredictValue_def)

text \<open>What \<^verbatim>\<open>PredictValue\<close> computes: the combination of the first of Z, Y and X that
  is not empty; it panics when the three are empty, and then only.\<close>
lemma PredictValue_falls_through:
  "PredictValue CombineSlice s =
     (if ns_Z s \<noteq> [] then Inr (CombineSlice (ns_Z s))
      else if ns_Y s \<noteq> [] then Inr (CombineSlice (ns_Y s))
      else if ns_X s \<noteq> [] then Inr (CombineSlice (ns_X s))
      else Inl (Panic ''PredictValue was called when HasNomination was false''))
   \<and> (isl (PredictValue CombineSlice s) \<longleftrightarrow> ns_X s = [] \<and> ns_Y s = [] \<and> ns_Z s = [])"
  by (auto simp: PredictValue_def)

text \<open>The two conditions agree in the states where Y and Z have nothing that X lacks.\<close>
lemma PredictValue_fails_iff:
  "set (ns_Z s) \<subseteq> set (ns_Y s) \<Longrightarrow> set (ns_Y s) \<subseteq> set (ns_X s)
     \<Longrightarrow> isl (PredictValue CombineSlice s) \<longleftrightarrow> \<not> HasNomination s"
  by (auto simp: PredictValue_def HasNomination_def)

text \<open>
  C8. \<^verbatim>\<open>MaybeNextBallot\<close> returns false and the state as it was when \<open>z\<close> or \<open>b\<close> is nil.
  Otherwise let \<open>higher\<close> list the peers whose stored message has a ballot number above
  \<open>b.n\<close>: when they block the slice \<open>D\<close> the call returns true and the state with \<open>b.n\<close>
  incremented (in 64-bit arithmetic) and nothing else changed, and when they do not it
  returns false and the state as it was.
\<close>
theorem MaybeNextBallot_bumps:
  "(bs_z s = None \<or> bs_b s = None \<longrightarrow> MaybeNextBallot ops s = (False, s))
   \<and> (bs_z s \<noteq> None \<and> bs_b s = Some b \<and> distinct (map fst (bs_M s))
        \<and> set higher = {node. \<exists>m. map_of (bs_M s) node = Some m
                                   \<and> ballot_n b <s BallotNumber ops m}
      \<longrightarrow> MaybeNextBallot ops s =
            (if BlockedBy (bs_D s) higher
             then (True, s\<lparr>bs_b := Some (b\<lparr>ballot_n := ballot_n b + 1\<rparr>)\<rparr>)
             else (False, s)))"
proof (intro conjI impI)
  assume "bs_z s = None \<or> bs_b s = None"
  then show "MaybeNextBallot ops s = (False, s)"
    by (auto simp: MaybeNextBallot_def split: option.splits)
next
  assume a: "bs_z s \<noteq> None \<and> bs_b s = Some b \<and> distinct (map fst (bs_M s))
        \<and> set higher = {node. \<exists>m. map_of (bs_M s) node = Some m
                                   \<and> ballot_n b <s BallotNumber ops m}"
  let ?higher = "map fst (filter (\<lambda>(node, m). ballot_n b <s BallotNumber ops m) (bs_M s))"
  from a have "set ?higher = set higher"
    by (auto simp: image_iff)
  then have "BlockedBy (bs_D s) ?higher = BlockedBy (bs_D s) higher"
    by (rule BlockedBy_cong)
  with a show "MaybeNextBallot ops s =
            (if BlockedBy (bs_D s) higher
             then (True, s\<lparr>bs_b := Some (b\<lparr>ballot_n := ballot_n b + 1\<rparr>)\<rparr>)
             else (False, s))"
    by (auto simp: MaybeNextBallot_def Let_def)
qed

theorem MaybeNextBallot_bumps_witness:
  "bs_z ballot_behind_b \<noteq> None
   \<and> bs_b ballot_behind_b = Some \<lparr>ballot_n = 1, ballot_x = 7\<rparr>
   \<and> distinct (map fst (bs_M ballot_behind_b))
   \<and> BlockedBy (bs_D ballot_behind_b) [''b'']
   \<and> MaybeNextBallot sample_methods ballot_behind_b
       = (True, ballot_behind_b\<lparr>bs_b := Some \<lparr>ballot_n = 2, ballot_x = 7\<rparr>\<rparr>)"
proof -
  have z: "bs_z ballot_behind_b \<noteq> None"
    and b: "bs_b ballot_behind_b = Some \<lparr>ballot_n = 1, ballot_x = 7\<rparr>"
    and d: "distinct (map fst (bs_M ballot_behind_b))"
    and bl: "BlockedBy (bs_D ballot_behind_b) [''b'']"
    by (simp_all add: ballot_behind_b_def BlockedBy_def slice_ab_def)
  have h: "set [''b''] = {node. \<exists>m. map_of (bs_M ballot_behind_b) node = Some m
              \<and> ballot_n \<lparr>ballot_n = 1, ballot_x = 7::nat\<rparr> <s BallotNumber sample_methods m}"
    by (auto simp: ballot_behind_b_def sample_defs word_sless_alt split: if_splits)
  from MaybeNextBallot_bumps[of ballot_behind_b sample_methods
      "\<lparr>ballot_n = 1, ballot_x = 7\<rparr>" "[''b'']"] z b d bl h
  have "MaybeNextBallot sample_methods ballot_behind_b
       = (True, ballot_behind_b\<lparr>bs_b := Some \<lparr>ballot_n = 2, ballot_x = 7\<rparr>\<rparr>)"
    by simp
  with z b d bl show ?thesis by blast
qed




text \<open>
  C10. \<^verbatim>\<open>MaybeAcceptAsPrepared(0, x)\<close> returns the state as it was, in every phase and
  for every value. A new ballot state holds no prepared ballot, and in every state reached
  by calls that return from a state in which neither \<open>p\<close> nor \<open>p'\<close> has number 0, neither
  has number 0.
\<close>
theorem zero_ballot_ignored:
  "MaybeAcceptAsPrepared ops 0 x (s :: 'v BallotState) = Inr s
   \<and> prepared_nonzero (NewBallotState publicKey qs :: 'v BallotState)
   \<and> (prepared_nonzero t \<and> ballot_run ops fuel calls t = Some (Inr t') \<longrightarrow> prepared_nonzero t')
   \<and> (prepared_nonzero t \<longrightarrow> bs_p t \<noteq> Some \<lparr>ballot_n = 0, ballot_x = x\<rparr>
                                \<and> bs_pPrime t \<noteq> Some \<lparr>ballot_n = 0, ballot_x = x\<rparr>)"
proof -
  have "MaybeAcceptAsPrepared ops 0 x s = Inr s"
    by (simp add: MaybeAcceptAsPrepared_def)
  moreover have "prepared_nonzero (NewBallotState publicKey qs :: 'v BallotState)"
    by (simp add: prepared_nonzero_def NewBallotState_def)
  moreover have "prepared_nonzero t \<and> ballot_run ops fuel calls t = Some (Inr t')
      \<longrightarrow> prepared_nonzero t'"
    using ballot_run_closed[OF op_closed_prepared_nonzero store_closed_simple(3)] by blast
  moreover have "prepared_nonzero t \<longrightarrow> bs_p t \<noteq> Some \<lparr>ballot_n = 0, ballot_x = x\<rparr>
                                \<and> bs_pPrime t \<noteq> Some \<lparr>ballot_n = 0, ballot_x = x\<rparr>"
    by (auto simp: prepared_nonzero_def)
  ultimately show ?thesis by blast
qed

theorem zero_ballot_ignored_witness:
  "prepared_nonzero (NewBallotState ''a'' slice_ab :: nat BallotState)
   \<and> ballot_run sample_methods 1 [Call_BallotHandle ''b'' prepare_of_b]
       (NewBallotState ''a'' slice_ab) = Some (Inr ballot_after_b)
   \<and> prepared_nonzero ballot_after_b
   \<and> MaybeAcceptAsPrepared sample_methods 0 0 ballot_after_b = Inr ballot_after_b"
proof -
  have run: "ballot_run sample_methods 1 [Call_BallotHandle ''b'' prepare_of_b]
       (NewBallotState ''a'' slice_ab) = Some (Inr ballot_after_b)"
    using run_prepare_of_b by simp
  from zero_ballot_ignored[of sample_methods 0 ballot_after_b "''a''" slice_ab
      "NewBallotState ''a'' slice_ab" 1 "[Call_BallotHandle ''b'' prepare_of_b]" ballot_after_b]
    run
  show ?thesis by blast
qed

end
